theory Spec2Isabelle
  imports Main "HOL-Library.Sublist"
begin

section \<open>JavaScript strings\<close>

text \<open>
  A JavaScript string is modelled as a \<^typ>\<open>string\<close>: the list of its code units.  A
  \<^typ>\<open>char\<close> holds the code units 0 to 255, so the model covers the strings of the
  Latin-1 range; \<open>length\<close> is then the \<open>.length\<close> of the source.
\<close>

definition startsWith :: "string \<Rightarrow> string \<Rightarrow> bool" where
  "startsWith s p = prefix p s"

definition endsWith :: "string \<Rightarrow> string \<Rightarrow> bool" where
  "endsWith s p = suffix p s"

fun str_includes :: "string \<Rightarrow> string \<Rightarrow> bool" where
  "str_includes [] p = (p = [])"
| "str_includes (c # s) p = (prefix p (c # s) \<or> str_includes s p)"

definition toLowerChar :: "char \<Rightarrow> char" where
  "toLowerChar c =
     (let n = (of_char c :: nat)
      in if (65 \<le> n \<and> n \<le> 90) \<or> (192 \<le> n \<and> n \<le> 222 \<and> n \<noteq> 215)
         then char_of (n + 32) else c)"

definition toLowerCase :: "string \<Rightarrow> string" where
  "toLowerCase s = map toLowerChar s"

definition isWhiteSpace :: "char \<Rightarrow> bool" where
  "isWhiteSpace c = ((of_char c :: nat) \<in> {9, 10, 11, 12, 13, 32, 160})"

definition trim :: "string \<Rightarrow> string" where
  "trim s = rev (dropWhile isWhiteSpace (rev (dropWhile isWhiteSpace s)))"

section \<open>tools/command.js: the command gate\<close>

text \<open>
  \<open>COMMAND_WHITELIST\<close> is an object literal: its own properties are the fifteen command
  names, each with the value \<open>true\<close>.  The read \<open>COMMAND_WHITELIST[cmd]\<close> of the source is
  a property read on an ordinary object, so a name that is not an own property is looked
  up on \<open>Object.prototype\<close>, whose properties are all functions or objects (truthy).
\<close>

definition COMMAND_WHITELIST :: "(string \<times> bool) list" where
  "COMMAND_WHITELIST =
     [(''node'', True), (''npm'', True), (''npx'', True), (''git'', True),
      (''ls'', True), (''cat'', True), (''head'', True), (''tail'', True),
      (''wc'', True), (''find'', True), (''grep'', True),
      (''echo'', True), (''pwd'', True), (''which'', True), (''env'', True)]"

definition COMMAND_BLOCKLIST :: "string list" where
  "COMMAND_BLOCKLIST =
     [''rm'', ''rmdir'', ''mv'', ''cp'', ''chmod'', ''chown'', ''sudo'', ''su'',
      ''curl'', ''wget'', ''ssh'', ''scp'', ''eval'', ''exec'', ''kill'', ''killall'',
      ''shutdown'', ''reboot'']"

definition Object_prototype_keys :: "string list" where
  "Object_prototype_keys =
     [''constructor'', ''__defineGetter__'', ''__defineSetter__'', ''hasOwnProperty'',
      ''__lookupGetter__'', ''__lookupSetter__'', ''isPrototypeOf'',
      ''propertyIsEnumerable'', ''toString'', ''valueOf'', ''__proto__'',
      ''toLocaleString'']"

definition whitelist_truthy :: "string \<Rightarrow> bool" where
  "whitelist_truthy cmd =
     (case map_of COMMAND_WHITELIST cmd of
        Some b \<Rightarrow> b
      | None \<Rightarrow> cmd \<in> set Object_prototype_keys)"

datatype command_check = Allowed | Blocked string

definition isCommandAllowed :: "string \<Rightarrow> command_check" where
  "isCommandAllowed command =
     (let cmd = trim (toLowerCase command)
      in if cmd \<in> set COMMAND_BLOCKLIST
         then Blocked (''Command '' @ [CHR 0x27] @ cmd @ [CHR 0x27] @ '' is blocked for security'')
         else if \<not> whitelist_truthy cmd
         then Blocked (''Command '' @ [CHR 0x27] @ cmd @ [CHR 0x27] @ '' is not in whitelist'')
         else Allowed)"

section \<open>Node's \<open>path\<close> module on POSIX\<close>

text \<open>
  \<open>path.resolve\<close> belongs to the Node runtime, not to the repository.  It is modelled
  after Node's POSIX implementation: the arguments are taken from right to left and
  prefixed to the path until one of them is absolute, the working directory (always an
  absolute path) coming last; the result is then normalised segment by segment: empty
  segments and \<open>.\<close> are dropped, \<open>..\<close> removes the segment before it and is dropped at
  the top.
\<close>

definition sep :: string where
  "sep = ''/''"

fun split_sep :: "string \<Rightarrow> string list" where
  "split_sep [] = [[]]"
| "split_sep (c # cs) =
     (if c = CHR ''/'' then [] # split_sep cs
      else (case split_sep cs of
              [] \<Rightarrow> [[c]]
            | seg # segs \<Rightarrow> (c # seg) # segs))"

fun join_sep :: "string list \<Rightarrow> string" where
  "join_sep [] = []"
| "join_sep [seg] = seg"
| "join_sep (seg # segs) = seg @ ''/'' @ join_sep segs"

fun normalize_segments :: "string list \<Rightarrow> string list \<Rightarrow> string list" where
  "normalize_segments acc [] = acc"
| "normalize_segments acc (seg # segs) =
     (if seg = [] \<or> seg = ''.'' then normalize_segments acc segs
      else if seg = ''..'' then normalize_segments (butlast acc) segs
      else normalize_segments (acc @ [seg]) segs)"

fun resolve_join :: "string list \<Rightarrow> string \<Rightarrow> string" where
  "resolve_join [] resolvedPath = resolvedPath"
| "resolve_join (p # ps) resolvedPath =
     (if p = [] then resolve_join ps resolvedPath
      else if hd p = CHR ''/'' then p @ ''/'' @ resolvedPath
      else resolve_join ps (p @ ''/'' @ resolvedPath))"

definition path_resolve :: "string \<Rightarrow> string \<Rightarrow> string \<Rightarrow> string" where
  "path_resolve cwd a b =
     ''/'' @ join_sep (normalize_segments [] (split_sep (resolve_join [b, a, cwd] [])))"

section \<open>tools/filesystem.js: the path guard\<close>

text \<open>
  \<open>PROJECT_ROOT\<close> is module state: \<open>/vercel/sandbox\<close> until \<open>initialize\<close> replaces it by
  the resolved form of its argument.  \<open>safePath\<close> reads it, so it is a parameter here, as
  is the working directory that \<open>path.resolve\<close> falls back to.
\<close>

definition default_PROJECT_ROOT :: string where
  "default_PROJECT_ROOT = ''/vercel/sandbox''"

definition initialize :: "string \<Rightarrow> string \<Rightarrow> string" where
  "initialize cwd root = path_resolve cwd [] root"

datatype safe_path = Valid string | Invalid string

text \<open>The five regular expressions of \<open>suspiciousPatterns\<close>, in the order of the source.\<close>

definition suspiciousPatterns :: "(string \<Rightarrow> bool) list" where
  "suspiciousPatterns =
     [\<lambda>s. str_includes s ''../'' \<or> str_includes s [CHR ''.'', CHR ''.'', CHR 0x5C],
      \<lambda>s. s \<noteq> [] \<and> (hd s = CHR ''/'' \<or> hd s = CHR 0x5C),
      \<lambda>s. s \<noteq> [] \<and> hd s = CHR ''~'',
      \<lambda>s. str_includes s [CHR 0x24, CHR 0x7B],
      \<lambda>s. str_includes s [CHR 0x24, CHR 0x28]]"

fun pattern_loop :: "(string \<Rightarrow> bool) list \<Rightarrow> string \<Rightarrow> string \<Rightarrow> string \<Rightarrow> string option" where
  "pattern_loop [] cwd PROJECT_ROOT inputPath = None"
| "pattern_loop (pattern # patterns) cwd PROJECT_ROOT inputPath =
     (if pattern inputPath \<and> \<not> startsWith inputPath PROJECT_ROOT
      then (let testResolved = path_resolve cwd PROJECT_ROOT inputPath
            in if \<not> startsWith testResolved (PROJECT_ROOT @ sep) \<and> testResolved \<noteq> PROJECT_ROOT
               then Some (''Suspicious path pattern detected: '' @ inputPath)
               else pattern_loop patterns cwd PROJECT_ROOT inputPath)
      else pattern_loop patterns cwd PROJECT_ROOT inputPath)"

definition safePath :: "string \<Rightarrow> string \<Rightarrow> string \<Rightarrow> safe_path" where
  "safePath cwd PROJECT_ROOT inputPath =
     (if CHR 0x00 \<in> set inputPath
      then Invalid ''Path contains null bytes (security violation)''
      else case pattern_loop suspiciousPatterns cwd PROJECT_ROOT inputPath of
             Some err \<Rightarrow> Invalid err
           | None \<Rightarrow>
               (let resolved = path_resolve cwd PROJECT_ROOT inputPath;
                    normalizedRoot =
                      (if endsWith PROJECT_ROOT sep then PROJECT_ROOT else PROJECT_ROOT @ sep);
                    normalizedResolved =
                      (if endsWith resolved sep then resolved else resolved @ sep)
                in if resolved \<noteq> PROJECT_ROOT \<and> \<not> startsWith normalizedResolved normalizedRoot
                   then Invalid (''Path escapes project root: '' @ inputPath)
                   else Valid resolved))"

text \<open>
  The confinement predicate of the specification: a resolved path is within the root when it
  is the root, or continues the root after a path separator.
\<close>

definition within_root :: "string \<Rightarrow> string \<Rightarrow> bool" where
  "within_root root resolved =
     (resolved = root \<or> prefix (if root = ''/'' then root else root @ ''/'') resolved)"

section \<open>JSON values and tool results\<close>

text \<open>
  The values that cross the tool boundary and the LLM boundary are JSON values.  Numbers
  are restricted to the integers that JavaScript represents exactly and prints in decimal
  digits (exit codes, counts, sizes, clock readings).  An object is the list of its own
  properties, each key once; a property that is absent reads as \<open>undefined\<close>, which is
  \<open>None\<close> here.  The properties read by name in this program are not among those that
  \<open>Object.prototype\<close> provides, so a read finds an own property or nothing.
\<close>

datatype json =
    JNull
  | JBool bool
  | JNum int
  | JStr string
  | JArr "json list"
  | JObj "(string \<times> json) list"

fun truthy :: "json \<Rightarrow> bool" where
  "truthy JNull = False"
| "truthy (JBool b) = b"
| "truthy (JNum n) = (n \<noteq> 0)"
| "truthy (JStr s) = (s \<noteq> [])"
| "truthy (JArr xs) = True"
| "truthy (JObj kvs) = True"

fun truthy_opt :: "json option \<Rightarrow> bool" where
  "truthy_opt None = False"
| "truthy_opt (Some v) = truthy v"

fun str_truthy :: "string option \<Rightarrow> bool" where
  "str_truthy None = False"
| "str_truthy (Some s) = (s \<noteq> [])"

text \<open>Every tool returns \<open>{success, data, error}\<close>, the last two optional.\<close>

record tool_result =
  success :: bool
  data :: "json option"
  error :: "string option"

fun get_prop :: "json option \<Rightarrow> string \<Rightarrow> json option" where
  "get_prop (Some (JObj kvs)) k = map_of kvs k"
| "get_prop _ k = None"

section \<open>Decimal numerals\<close>

fun show_nat :: "nat \<Rightarrow> string" where
  "show_nat n =
     (if n < 10 then [''0123456789'' ! n]
      else show_nat (n div 10) @ [''0123456789'' ! (n mod 10)])"

declare show_nat.simps [simp del]

definition show_int :: "int \<Rightarrow> string" where
  "show_int i = (if i < 0 then ''-'' @ show_nat (nat (- i)) else show_nat (nat i))"

section \<open>tools/git.js\<close>

text \<open>
  \<open>execGit\<close> runs \<open>git\<close> with an argument list and returns exit code, standard output and
  standard error.  What git answers is outside the program: it is given by an environment
  that sees the commands issued so far and the present one.  The module state is the
  variable \<open>BACKUP_STASH_REF\<close>; the commands issued are recorded beside it, oldest first,
  as the trace of what the tools did to the repository.  \<open>spawnSync\<close> is taken to return:
  the \<open>catch\<close> branches of the tools, which issue no command, are not reached.
\<close>

record git_out =
  exitCode :: int
  stdout :: string
  stderr :: string

type_synonym git_env = "string list list \<Rightarrow> string list \<Rightarrow> git_out"

record git_state =
  BACKUP_STASH_REF :: "string option"
  issued :: "string list list"

text \<open>The name of the newest stash entry, \<open>stash\<close>, \<open>@\<close> and \<open>{0}\<close> in one string.\<close>

definition stash_ref :: string where
  "stash_ref = ''stash'' @ [CHR 0x40] @ ''{0}''"

definition git_initialize :: "git_state \<Rightarrow> git_state" where
  "git_initialize s = s\<lparr>BACKUP_STASH_REF := None\<rparr>"

definition execGit :: "git_env \<Rightarrow> string list \<Rightarrow> git_state \<Rightarrow> git_out \<times> git_state" where
  "execGit env args s = (env (issued s) args, s\<lparr>issued := issued s @ [args]\<rparr>)"

definition featureBranch_of :: "int \<Rightarrow> string \<Rightarrow> string" where
  "featureBranch_of timestamp branch =
     (if branch = ''main'' then ''agent/changes-'' @ show_int timestamp else branch)"

text \<open>
  \<open>git_push\<close>, called with a branch name, a string: \<open>githubToken\<close> is
  \<open>process.env.GITHUB_TOKEN\<close> and \<open>timestamp\<close> is \<open>Date.now()\<close>.  \<open>currentUrl.replace(p, "")\<close> is applied to a string that starts with
  \<open>p\<close>, so it removes that prefix.
\<close>

definition configure_remote :: "git_env \<Rightarrow> string option \<Rightarrow> git_state \<Rightarrow> git_state" where
  "configure_remote env githubToken s =
     (if str_truthy githubToken
      then (let (remoteResult, s1) = execGit env [''remote'', ''get-url'', ''origin''] s
            in if exitCode remoteResult = 0
               then (let currentUrl = trim (stdout remoteResult)
                     in if startsWith currentUrl ''https://github.com/''
                        then (let repoPath = drop (length ''https://github.com/'') currentUrl;
                                  authUrl = ''https://x-access-token:'' @ the githubToken
                                            @ ''@github.com/'' @ repoPath
                              in snd (execGit env [''remote'', ''set-url'', ''origin'', authUrl] s1))
                        else s1)
               else s1)
      else s)"

definition git_push ::
  "git_env \<Rightarrow> string option \<Rightarrow> int \<Rightarrow> string \<Rightarrow> git_state \<Rightarrow> tool_result \<times> git_state" where
  "git_push env githubToken timestamp branch s =
     (let featureBranch = featureBranch_of timestamp branch;
          (checkoutResult, s1) = execGit env [''checkout'', ''-b'', featureBranch] s;
          s2 = (if exitCode checkoutResult \<noteq> 0
                   \<and> \<not> str_includes (stderr checkoutResult) ''already exists''
                then snd (execGit env [''checkout'', featureBranch] s1)
                else s1);
          s3 = configure_remote env githubToken s2;
          (result, s4) = execGit env [''push'', ''-u'', ''origin'', featureBranch] s3
      in if exitCode result \<noteq> 0
         then (\<lparr>success = False,
                data = Some (JObj [(''exitCode'', JNum (exitCode result))]),
                error = Some (''git push failed: '' @ stderr result)\<rparr>, s4)
         else (\<lparr>success = True,
                data = Some (JObj
                  [(''branch'', JStr featureBranch),
                   (''originalRequest'', JStr branch),
                   (''pushed'', JBool True),
                   (''stdout'', JStr (stdout result)),
                   (''note'', JStr (if branch = ''main''
                      then ''Pushed to feature branch instead of main for safety. Use git_create_pr to create a pull request.''
                      else ''Pushed successfully''))]),
                error = None\<rparr>, s4))"

text \<open>The backup tools.\<close>

definition record_head :: "git_env \<Rightarrow> bool \<Rightarrow> git_state \<Rightarrow> tool_result \<times> git_state" where
  "record_head env hasChanges s =
     (let (headResult, s1) = execGit env [''rev-parse'', ''HEAD''] s;
          headSha = trim (stdout headResult)
      in (\<lparr>success = True,
           data = Some (JObj
             [(''backup_created'', JBool True),
              (''stashed_changes'', JBool hasChanges),
              (''head_sha'', JStr headSha),
              (''message'', JStr ''Backup created. If build fails, call git_restore_backup to rollback.'')]),
           error = None\<rparr>, s1))"

definition git_stash_backup :: "git_env \<Rightarrow> git_state \<Rightarrow> tool_result \<times> git_state" where
  "git_stash_backup env s =
     (let (statusResult, s1) = execGit env [''status'', ''--porcelain''] s;
          hasChanges = (length (trim (stdout statusResult)) > 0)
      in if hasChanges
         then (let (stashResult, s2) =
                     execGit env [''stash'', ''push'', ''-m'', ''AGENT_BACKUP_PRE_MODIFICATION''] s1
               in if exitCode stashResult \<noteq> 0
                  then (\<lparr>success = False, data = None,
                         error = Some (''Stash failed: '' @ stderr stashResult)\<rparr>, s2)
                  else record_head env hasChanges (s2\<lparr>BACKUP_STASH_REF := Some stash_ref\<rparr>))
         else record_head env hasChanges s1)"

definition git_restore_backup :: "git_env \<Rightarrow> git_state \<Rightarrow> tool_result \<times> git_state" where
  "git_restore_backup env s =
     (let s1 = snd (execGit env [''checkout'', ''.''] s);
          s2 = snd (execGit env [''clean'', ''-fd''] s1);
          s3 = snd (execGit env [''reset'', ''HEAD''] s2);
          s6 = (if str_truthy (BACKUP_STASH_REF s3)
                then (let (stashListResult, s4) = execGit env [''stash'', ''list''] s3;
                          s5 = (if str_includes (stdout stashListResult) ''AGENT_BACKUP_PRE_MODIFICATION''
                                then snd (execGit env [''stash'', ''pop''] s4)
                                else s4)
                      in s5\<lparr>BACKUP_STASH_REF := None\<rparr>)
                else s3)
      in (\<lparr>success = True,
           data = Some (JObj
             [(''restored'', JBool True),
              (''message'', JStr ''All changes reverted. Repository is back to pre-modification state.'')]),
           error = None\<rparr>, s6))"

definition git_clear_backup :: "git_env \<Rightarrow> git_state \<Rightarrow> tool_result \<times> git_state" where
  "git_clear_backup env s =
     (let s2 = (if str_truthy (BACKUP_STASH_REF s)
                then (let (stashListResult, s1) = execGit env [''stash'', ''list''] s
                      in s1\<lparr>BACKUP_STASH_REF := None\<rparr>)
                else s)
      in (\<lparr>success = True,
           data = Some (JObj
             [(''cleared'', JBool True),
              (''message'', JStr ''Backup cleared. Changes are now permanent.'')]),
           error = None\<rparr>, s2))"

text \<open>
  The pattern \<open>agent/changes-<digits>\<close> of the specification, and the commands of a trace
  that push.
\<close>

definition isDigit :: "char \<Rightarrow> bool" where
  "isDigit c = (c \<in> set ''0123456789'')"

definition matches_agent_changes :: "string \<Rightarrow> bool" where
  "matches_agent_changes b =
     (prefix ''agent/changes-'' b
      \<and> drop (length ''agent/changes-'') b \<noteq> []
      \<and> list_all isDigit (drop (length ''agent/changes-'') b))"

text \<open>The number that a string of decimal digits denotes.\<close>

definition digit_value :: "char \<Rightarrow> nat" where
  "digit_value c = of_char c - 48"

definition decimal_value :: "string \<Rightarrow> nat" where
  "decimal_value s = foldl (\<lambda>a c. 10 * a + digit_value c) 0 s"

definition is_push :: "string list \<Rightarrow> bool" where
  "is_push args = (case args of [] \<Rightarrow> False | a # as \<Rightarrow> a = ''push'')"

text \<open>A git that answers every command with exit code 0 and no output; a fresh module state.\<close>

definition git_quiet :: git_env where
  "git_quiet history args = \<lparr>exitCode = 0, stdout = [], stderr = []\<rparr>"

definition git_state0 :: git_state where
  "git_state0 = \<lparr>BACKUP_STASH_REF = None, issued = []\<rparr>"

text \<open>A git whose working tree has one modified file.\<close>

definition git_dirty :: git_env where
  "git_dirty history args =
     (if args = [''status'', ''--porcelain'']
      then \<lparr>exitCode = 0, stdout = '' M src/a.ts'', stderr = []\<rparr>
      else \<lparr>exitCode = 0, stdout = [], stderr = []\<rparr>)"

section \<open>JavaScript exceptions and conversions\<close>

text \<open>
  A JavaScript computation either returns a value or throws.  An exception has a name and
  a message (\<open>err.message\<close>); \<open>error_text\<close> is how the runtime prints it, the name first.
\<close>

datatype js_error = JsError string string

abbreviation TypeError :: "string \<Rightarrow> js_error" where
  "TypeError m \<equiv> JsError ''TypeError'' m"

fun message_of :: "js_error \<Rightarrow> string" where
  "message_of (JsError n m) = m"

fun error_text :: "js_error \<Rightarrow> string" where
  "error_text (JsError n m) = n @ '': '' @ m"

datatype 'a js = Return 'a | Throw js_error

definition then_js :: "'a js \<Rightarrow> ('a \<Rightarrow> 'b js) \<Rightarrow> 'b js" where
  "then_js m f = (case m of Throw e \<Rightarrow> Throw e | Return x \<Rightarrow> f x)"

text \<open>Reading a property of \<open>undefined\<close> or \<open>null\<close>; calling what is not a function.\<close>

definition cannot_read :: "string \<Rightarrow> string \<Rightarrow> js_error" where
  "cannot_read what key =
     TypeError (''Cannot read properties of '' @ what @ '' (reading '' @ [CHR 0x27] @ key
                @ [CHR 0x27] @ '')'')"

definition not_a_function :: "string \<Rightarrow> js_error" where
  "not_a_function callee = TypeError (callee @ '' is not a function'')"

fun join_with :: "string \<Rightarrow> string list \<Rightarrow> string" where
  "join_with d [] = []"
| "join_with d [x] = x"
| "join_with d (x # xs) = x @ d @ join_with d xs"

text \<open>
  \<open>String(v)\<close>, which a template literal applies to an interpolated value, a property read
  to its key and \<open>String.prototype.includes\<close> to its argument.  A parsed object inherits
  \<open>toString\<close> from \<open>Object.prototype\<close> and converts to \<open>[object Object]\<close>, unless it has
  an own property \<open>toString\<close>: no parsed value is a function, so the conversion finds
  nothing to call there, gets no primitive from \<open>valueOf\<close> either, and throws a type error.
  An array is joined with commas, its elements converted in turn, \<open>null\<close> giving the empty
  string; it throws when an element does.  \<open>convertible\<close> tells whether the conversion
  returns, \<open>string_of\<close> is what it returns then.
\<close>

fun convertible :: "json \<Rightarrow> bool" where
  "convertible (JArr xs) = list_all convertible xs"
| "convertible (JObj kvs) = (map_of kvs ''toString'' = None)"
| "convertible v = True"

fun string_of :: "json \<Rightarrow> string" where
  "string_of JNull = ''null''"
| "string_of (JBool b) = (if b then ''true'' else ''false'')"
| "string_of (JNum n) = show_int n"
| "string_of (JStr s) = s"
| "string_of (JArr xs) =
     join_with '','' (map (\<lambda>x. if x = JNull then [] else string_of x) xs)"
| "string_of (JObj kvs) = ''[object Object]''"

definition cannot_convert :: js_error where
  "cannot_convert = TypeError ''Cannot convert object to primitive value''"

definition js_to_string :: "json \<Rightarrow> string js" where
  "js_to_string v = (if convertible v then Return (string_of v) else Throw cannot_convert)"

fun js_to_string_opt :: "json option \<Rightarrow> string js" where
  "js_to_string_opt None = Return ''undefined''"
| "js_to_string_opt (Some v) = js_to_string v"

fun convertible_opt :: "json option \<Rightarrow> bool" where
  "convertible_opt None = True"
| "convertible_opt (Some v) = convertible v"

text \<open>\<open>xs.join(d)\<close> on an array.\<close>

definition js_join :: "string \<Rightarrow> json list \<Rightarrow> string js" where
  "js_join d xs =
     (if list_all convertible xs
      then Return (join_with d (map (\<lambda>x. if x = JNull then [] else string_of x) xs))
      else Throw cannot_convert)"

text \<open>
  The property \<open>length\<close> of a value that is neither \<open>undefined\<close> nor \<open>null\<close>: the number
  of code units of a string, the number of elements of an array, the own property of an
  object, \<open>undefined\<close> for a number or a boolean.
\<close>

fun js_length :: "json \<Rightarrow> json option" where
  "js_length (JStr s) = Some (JNum (int (length s)))"
| "js_length (JArr xs) = Some (JNum (int (length xs)))"
| "js_length (JObj kvs) = map_of kvs ''length''"
| "js_length v = None"

definition js_or :: "json option \<Rightarrow> json option \<Rightarrow> json option" where
  "js_or a b = (if truthy_opt a then a else b)"

text \<open>\<open>JSON.stringify(v)\<close> and \<open>JSON.stringify(v, null, 2)\<close>: \<open>gap\<close> is 0 or 2.\<close>

definition hex_digit :: "nat \<Rightarrow> char" where
  "hex_digit d = ''0123456789abcdef'' ! d"

definition quote_char :: "char \<Rightarrow> string" where
  "quote_char c =
     (let n = (of_char c :: nat)
      in if n = 34 then [CHR 0x5C, CHR 0x22]
         else if n = 92 then [CHR 0x5C, CHR 0x5C]
         else if n = 8 then [CHR 0x5C, CHR ''b'']
         else if n = 12 then [CHR 0x5C, CHR ''f'']
         else if n = 10 then [CHR 0x5C, CHR ''n'']
         else if n = 13 then [CHR 0x5C, CHR ''r'']
         else if n = 9 then [CHR 0x5C, CHR ''t'']
         else if n < 32 then [CHR 0x5C, CHR ''u'', CHR ''0'', CHR ''0'',
                              hex_digit (n div 16), hex_digit (n mod 16)]
         else [c])"

definition quote :: "string \<Rightarrow> string" where
  "quote s = [CHR 0x22] @ concat (map quote_char s) @ [CHR 0x22]"

definition indent :: "nat \<Rightarrow> string" where
  "indent k = replicate k CHR '' ''"

fun stringify :: "nat \<Rightarrow> nat \<Rightarrow> json \<Rightarrow> string" where
  "stringify gap k JNull = ''null''"
| "stringify gap k (JBool b) = (if b then ''true'' else ''false'')"
| "stringify gap k (JNum n) = show_int n"
| "stringify gap k (JStr s) = quote s"
| "stringify gap k (JArr xs) =
     (if xs = [] then ''[]''
      else if gap = 0 then ''['' @ join_with '','' (map (stringify gap k) xs) @ '']''
      else ''['' @ [CHR 0x0A] @ indent (k + gap)
           @ join_with ('','' @ [CHR 0x0A] @ indent (k + gap)) (map (stringify gap (k + gap)) xs)
           @ [CHR 0x0A] @ indent k @ '']'')"
| "stringify gap k (JObj kvs) =
     (if kvs = [] then ''{}''
      else if gap = 0
      then ''{'' @ join_with '',''
             (map (\<lambda>kv. quote (fst kv) @ '':'' @ stringify gap k (snd kv)) kvs) @ ''}''
      else ''{'' @ [CHR 0x0A] @ indent (k + gap)
           @ join_with ('','' @ [CHR 0x0A] @ indent (k + gap))
               (map (\<lambda>kv. quote (fst kv) @ '': '' @ stringify gap (k + gap) (snd kv)) kvs)
           @ [CHR 0x0A] @ indent k @ ''}'')"

definition JSON_stringify :: "json \<Rightarrow> string" where
  "JSON_stringify v = stringify 0 0 v"

definition JSON_stringify_pretty :: "json option \<Rightarrow> string" where
  "JSON_stringify_pretty v = (case v of None \<Rightarrow> ''undefined'' | Some x \<Rightarrow> stringify 2 0 x)"

section \<open>agent/state.js: the execution state\<close>

text \<open>
  The state is one object of nested objects; in the setters \<open>null\<close> and \<open>undefined\<close>
  are both \<open>None\<close>.  \<open>reset\<close> restores \<open>initialState\<close>; \<open>update\<close> is only called with
  \<open>{iteration: {max: MAX_STEPS}}\<close>, where the deep merge amounts to setting that field.
\<close>

record build_status =
  build_ran :: bool
  build_success :: "bool option"
  build_errors :: json
  build_output :: "json option"

record dev_server_status =
  running :: bool
  port :: "json option"
  pid :: "json option"

record verification_status =
  verification_ran :: bool
  verification_success :: "bool option"
  checks :: "(json \<times> bool) list"

record git_status =
  committed :: bool
  pushed :: bool
  commit_hash :: "json option"
  branch :: "json option"
  pr_url :: "json option"

record iteration_status =
  count :: nat
  max_iterations :: nat
  errors :: "string list"
  repairs :: nat

record plan_status =
  steps :: json
  current_step :: nat

record agent_state =
  goal :: "string option"
  changed_files :: "json list"
  build :: build_status
  dev_server :: dev_server_status
  verification :: verification_status
  git :: git_status
  iteration :: iteration_status
  plan :: plan_status

definition initialState :: agent_state where
  "initialState =
     \<lparr>goal = None,
      changed_files = [],
      build = \<lparr>build_ran = False, build_success = None, build_errors = JArr [],
               build_output = None\<rparr>,
      dev_server = \<lparr>running = False, port = None, pid = None\<rparr>,
      verification = \<lparr>verification_ran = False, verification_success = None, checks = []\<rparr>,
      git = \<lparr>committed = False, pushed = False, commit_hash = None, branch = None,
             pr_url = None\<rparr>,
      iteration = \<lparr>count = 0, max_iterations = 10, errors = [], repairs = 0\<rparr>,
      plan = \<lparr>steps = JArr [], current_step = 0\<rparr>\<rparr>"

definition update_max :: "nat \<Rightarrow> agent_state \<Rightarrow> agent_state" where
  "update_max m st = st\<lparr>iteration := (iteration st)\<lparr>max_iterations := m\<rparr>\<rparr>"

definition setGoal :: "string \<Rightarrow> agent_state \<Rightarrow> agent_state" where
  "setGoal g st = st\<lparr>goal := Some g\<rparr>"

text \<open>
  \<open>Array.prototype.includes\<close> compares objects and arrays by identity, and a freshly parsed
  value is identical to no earlier one.
\<close>

fun array_includes :: "json list \<Rightarrow> json \<Rightarrow> bool" where
  "array_includes xs (JArr ys) = False"
| "array_includes xs (JObj kvs) = False"
| "array_includes xs v = (v \<in> set xs)"

definition addChangedFile :: "json \<Rightarrow> agent_state \<Rightarrow> agent_state" where
  "addChangedFile filePath st =
     (if \<not> array_includes (changed_files st) filePath
      then st\<lparr>changed_files := changed_files st @ [filePath]\<rparr>
      else st)"

definition nullish :: "json option \<Rightarrow> json option" where
  "nullish v = (if v = Some JNull then None else v)"

definition setBuildStatus :: "bool \<Rightarrow> json \<Rightarrow> json option \<Rightarrow> agent_state \<Rightarrow> agent_state" where
  "setBuildStatus ok errs output st =
     st\<lparr>build := \<lparr>build_ran = True, build_success = Some ok, build_errors = errs,
                   build_output = nullish output\<rparr>\<rparr>"

definition setDevServerStatus ::
  "bool \<Rightarrow> json option \<Rightarrow> json option \<Rightarrow> agent_state \<Rightarrow> agent_state" where
  "setDevServerStatus r p i st =
     st\<lparr>dev_server := \<lparr>running = r, port = nullish p, pid = nullish i\<rparr>\<rparr>"

definition setVerificationStatus :: "bool \<Rightarrow> (json \<times> bool) list \<Rightarrow> agent_state \<Rightarrow> agent_state" where
  "setVerificationStatus ok cs st =
     st\<lparr>verification := \<lparr>verification_ran = True, verification_success = Some ok,
                          checks = cs\<rparr>\<rparr>"

definition setGitStatus ::
  "bool \<Rightarrow> bool \<Rightarrow> json option \<Rightarrow> json option \<Rightarrow> json option \<Rightarrow> agent_state \<Rightarrow> agent_state" where
  "setGitStatus c p commitHash br prUrl st =
     st\<lparr>git := \<lparr>committed = c,
                 pushed = p,
                 commit_hash = nullish commitHash,
                 branch = js_or br (branch (git st)),
                 pr_url = js_or prUrl (pr_url (git st))\<rparr>\<rparr>"

definition incrementIteration :: "agent_state \<Rightarrow> agent_state" where
  "incrementIteration st = st\<lparr>iteration := (iteration st)\<lparr>count := count (iteration st) + 1\<rparr>\<rparr>"

definition addIterationError :: "string \<Rightarrow> agent_state \<Rightarrow> agent_state" where
  "addIterationError e st =
     st\<lparr>iteration := (iteration st)\<lparr>errors := errors (iteration st) @ [e],
                                     repairs := repairs (iteration st) + 1\<rparr>\<rparr>"

definition setPlan :: "json \<Rightarrow> agent_state \<Rightarrow> agent_state" where
  "setPlan s st = st\<lparr>plan := \<lparr>steps = s, current_step = 0\<rparr>\<rparr>"

section \<open>agent/llm.js: decoding the reply, formatting the history\<close>

text \<open>
  \<open>callLLM\<close> returns \<open>{success: true, data}\<close> or \<open>{success: false, error}\<close>.
\<close>

datatype llm_result = Success json | Failure string

text \<open>
  The end of \<open>tryModel\<close>, from the check of \<open>content\<close> to the dispatch on the shape of the
  parsed reply.  \<open>content\<close> is a string or \<open>null\<close>, as the API returns it.  \<open>JSON.parse\<close>
  is a parameter: it yields the parsed value, or \<open>None\<close> where it throws a syntax error.
  Each branch of the dispatch writes a log line before it returns, and the line interpolates
  \<open>parsed.result\<close>, \<open>parsed.plan.length\<close> or \<open>parsed.tool\<close>: where that conversion
  throws, and where \<open>parsed\<close> is \<open>null\<close> and the read of \<open>done\<close> throws, the exception is
  caught by the enclosing \<open>try\<close> of \<open>tryModel\<close>.
\<close>

definition done_action :: "json \<Rightarrow> json" where
  "done_action parsed =
     JObj ([(''done'', JBool True)]
           @ (case get_prop (Some parsed) ''result'' of None \<Rightarrow> [] | Some r \<Rightarrow> [(''result'', r)])
           @ (case get_prop (Some parsed) ''summary'' of None \<Rightarrow> [] | Some s \<Rightarrow> [(''summary'', s)]))"

definition decode_parsed :: "string \<Rightarrow> json \<Rightarrow> llm_result js" where
  "decode_parsed content parsed =
     (if parsed = JNull
      then Throw (cannot_read ''null'' ''done'')
      else if get_prop (Some parsed) ''done'' \<noteq> None
      then then_js (js_to_string_opt (get_prop (Some parsed) ''result''))
             (\<lambda>logged. Return (Success (done_action parsed)))
      else if truthy_opt (get_prop (Some parsed) ''plan'')
      then then_js (js_to_string_opt (js_length (the (get_prop (Some parsed) ''plan''))))
             (\<lambda>logged. Return (Success (JObj [(''plan'', the (get_prop (Some parsed) ''plan''))])))
      else if truthy_opt (get_prop (Some parsed) ''tool'') \<and> get_prop (Some parsed) ''args'' \<noteq> None
      then then_js (js_to_string_opt (get_prop (Some parsed) ''tool''))
             (\<lambda>logged. Return (Success (JObj [(''tool'', the (get_prop (Some parsed) ''tool'')),
                                                (''args'', the (get_prop (Some parsed) ''args''))])))
      else Return (Failure (''Invalid response structure: '' @ content)))"

definition decode_content :: "(string \<Rightarrow> json option) \<Rightarrow> string \<Rightarrow> llm_result js" where
  "decode_content JSON_parse content =
     (case JSON_parse content of
        None \<Rightarrow>
          (if length content > 1000 \<and> \<not> endsWith (trim content) ''}''
           then Return (Failure
             ''Response appears truncated - file content too large. Try making smaller changes.'')
           else Return (Failure
             (''Failed to parse LLM response as JSON: '' @ take 500 content @ ''...'')))
      | Some parsed \<Rightarrow> decode_parsed content parsed)"

definition decode_body ::
  "(string \<Rightarrow> json option) \<Rightarrow> string option \<Rightarrow> string option \<Rightarrow> llm_result js" where
  "decode_body JSON_parse content finishReason =
     (if \<not> str_truthy content
      then Return (Failure ''No content in OpenAI response'')
      else if finishReason = Some ''length''
      then Return (Failure
        ''Response truncated - file content too large. Try making smaller, targeted changes.'')
      else decode_content JSON_parse (the content))"

text \<open>
  What the attempt that ends \<open>callLLM\<close> met: a failure before a body was read (HTTP error,
  model not found, retries exhausted, no API key), or the body of a 200 response with its
  \<open>content\<close> and \<open>finish_reason\<close>.  On that attempt a caught exception is returned as a
  failure with the exception's message.
\<close>

datatype llm_reply = CallFailed string | Body "string option" "string option"

definition callLLM :: "(string \<Rightarrow> json option) \<Rightarrow> llm_reply \<Rightarrow> llm_result" where
  "callLLM JSON_parse reply =
     (case reply of
        CallFailed e \<Rightarrow> Failure e
      | Body content finishReason \<Rightarrow>
          (case decode_body JSON_parse content finishReason of
             Return r \<Rightarrow> r
           | Throw e \<Rightarrow> Failure (message_of e)))"

record message =
  role :: string
  content :: string

text \<open>
  The warning sign of the source is two code units above the Latin-1 range; two characters
  stand for them, so that lengths agree.
\<close>

definition warning_sign :: string where
  "warning_sign = [CHR 0xA0, CHR 0x0F]"

definition exitCode_of :: "tool_result \<Rightarrow> json option" where
  "exitCode_of result = get_prop (data result) ''exitCode''"

definition isError_result :: "tool_result \<Rightarrow> bool" where
  "isError_result result =
     (\<not> success result \<or> (exitCode_of result \<noteq> None \<and> exitCode_of result \<noteq> Some (JNum 0)))"

text \<open>
  \<open>formatToolResult\<close> builds its content with a template literal; the interpolated values
  are converted from left to right, and a conversion that throws ends the call.
\<close>

definition formatToolResult :: "json \<Rightarrow> tool_result \<Rightarrow> message js" where
  "formatToolResult toolName result =
     (if isError_result result \<and> exitCode_of result \<noteq> None
      then then_js (js_to_string_opt (exitCode_of result)) (\<lambda>code.
           then_js (js_to_string_opt (js_or (get_prop (data result) ''command'') (Some toolName)))
             (\<lambda>cmd.
           then_js (js_to_string_opt
                      (js_or (get_prop (data result) ''stdout'') (Some (JStr ''(empty)''))))
             (\<lambda>out.
           then_js (js_to_string_opt
                      (js_or (get_prop (data result) ''stderr'') (Some (JStr ''(empty)''))))
             (\<lambda>err.
           Return \<lparr>role = ''user'',
                   content =
                     warning_sign @ '' COMMAND FAILED (exitCode='' @ code @ '')'' @ [CHR 0x0A]
                     @ ''Command: '' @ cmd @ [CHR 0x0A]
                     @ ''Stdout: '' @ out @ [CHR 0x0A]
                     @ ''Stderr: '' @ err @ [CHR 0x0A, CHR 0x0A]
                     @ ''You MUST fix the error before marking done.''\<rparr>))))
      else if \<not> success result
      then Return \<lparr>role = ''user'',
                   content =
                     warning_sign @ '' TOOL ERROR: ''
                     @ (case error result of None \<Rightarrow> ''undefined'' | Some e \<Rightarrow> e)
                     @ [CHR 0x0A] @ ''You may need to try a different approach.''\<rparr>
      else then_js (js_to_string toolName) (\<lambda>name.
           Return \<lparr>role = ''user'',
                   content =
                     ''Tool '' @ [CHR 0x22] @ name @ [CHR 0x22] @ '' succeeded:''
                     @ [CHR 0x0A] @ JSON_stringify_pretty (data result)\<rparr>))"

definition formatGoal :: "string \<Rightarrow> message" where
  "formatGoal g =
     \<lparr>role = ''user'',
      content = ''GOAL: '' @ g @ [CHR 0x0A, CHR 0x0A]
                @ ''First, provide a plan with concrete steps. Then execute each step.''\<rparr>"

definition tri_state :: "bool option \<Rightarrow> string" where
  "tri_state b = (case b of None \<Rightarrow> ''not run'' | Some True \<Rightarrow> ''passed'' | Some False \<Rightarrow> ''failed'')"

definition formatStateSummary :: "agent_state \<Rightarrow> message js" where
  "formatStateSummary st =
     then_js (js_join '', '' (changed_files st)) (\<lambda>joined.
     Return \<lparr>role = ''user'',
             content =
               ''CURRENT STATE:'' @ [CHR 0x0A]
               @ ''- Files changed: '' @ (if joined \<noteq> [] then joined else ''none'')
               @ [CHR 0x0A]
               @ ''- Build: '' @ tri_state (build_success (build st)) @ [CHR 0x0A]
               @ ''- Verification: '' @ tri_state (verification_success (verification st))
               @ [CHR 0x0A]
               @ ''- Iteration: '' @ show_nat (count (iteration st)) @ ''/''
               @ show_nat (max_iterations (iteration st)) @ [CHR 0x0A]
               @ ''- Repairs: '' @ show_nat (repairs (iteration st))\<rparr>)"

section \<open>agent/index.js: tool dispatch and the loop\<close>

definition MAX_STEPS :: nat where
  "MAX_STEPS = 15"

text \<open>
  \<open>getAllTools()\<close> is an object literal with these own properties; \<open>allTools[toolName]\<close>
  also finds what \<open>Object.prototype\<close> provides.
\<close>

definition allTools_keys :: "string list" where
  "allTools_keys =
     [''write_file'', ''read_file'', ''list_files'', ''search_files'',
      ''git_clone'', ''git_status'', ''git_diff'', ''git_add'', ''git_commit'', ''git_push'',
      ''git_create_pr'', ''git_stash_backup'', ''git_restore_backup'', ''git_clear_backup'',
      ''git_log'',
      ''npm_install'', ''run_build'', ''run_lint'', ''check_build_output'',
      ''run_command'',
      ''verify_url'']"

definition allTools_truthy :: "string \<Rightarrow> bool" where
  "allTools_truthy key = (key \<in> set allTools_keys \<or> key \<in> set Object_prototype_keys)"

text \<open>
  The tools act on the world outside the program.  The world is given as a function of the
  loop pass, the tool name and the positional arguments, and answers for the tool with its
  result or with the exception it throws.
\<close>

type_synonym tool_world = "nat \<Rightarrow> string \<Rightarrow> json option list \<Rightarrow> tool_result js"

text \<open>
  Three tools read a property of an argument in their first line, the log line before
  their \<open>try\<close> block: \<open>write_file\<close> interpolates its path and \<open>content.length\<close>,
  \<open>git_commit\<close> calls \<open>message.substring\<close>, \<open>git_create_pr\<close> calls
  \<open>title.substring\<close>.  These lines are written out: with an argument that has no such
  property, or that does not convert, the call throws before the world is touched.
\<close>

definition log_write_file :: "json option \<Rightarrow> json option \<Rightarrow> string js" where
  "log_write_file filePath fileContent =
     then_js (js_to_string_opt filePath) (\<lambda>p.
       case fileContent of
         None \<Rightarrow> Throw (cannot_read ''undefined'' ''length'')
       | Some JNull \<Rightarrow> Throw (cannot_read ''null'' ''length'')
       | Some c \<Rightarrow>
           then_js (js_to_string_opt (js_length c)) (\<lambda>n.
             Return (''[TOOL:write_file] path='' @ [CHR 0x22] @ p @ [CHR 0x22]
                     @ '' content_length='' @ n)))"

definition log_substring :: "string \<Rightarrow> string \<Rightarrow> json option \<Rightarrow> string js" where
  "log_substring tool var v =
     (case v of
        None \<Rightarrow> Throw (cannot_read ''undefined'' ''substring'')
      | Some JNull \<Rightarrow> Throw (cannot_read ''null'' ''substring'')
      | Some (JStr s) \<Rightarrow>
          Return (''[TOOL:'' @ tool @ ''] '' @ var @ ''='' @ [CHR 0x22] @ take 50 s @ ''...''
                  @ [CHR 0x22])
      | Some other \<Rightarrow> Throw (not_a_function (var @ ''.substring'')))"

definition unhandled_tool :: "string \<Rightarrow> tool_result js" where
  "unhandled_tool key =
     Return \<lparr>success = False, data = None, error = Some (''Unhandled tool: '' @ key)\<rparr>"

text \<open>
  The \<open>switch\<close> compares \<open>toolName\<close> with the case labels by strict equality, so only a
  string selects a case; \<open>key\<close> is \<open>toolName\<close> converted to a string.
\<close>

definition switch_tool ::
  "tool_world \<Rightarrow> nat \<Rightarrow> json \<Rightarrow> string \<Rightarrow> json option \<Rightarrow> tool_result js" where
  "switch_tool world step toolName key args =
     (case toolName of
        JStr name \<Rightarrow>
          (if name = ''write_file''
             then then_js (log_write_file (get_prop args ''path'') (get_prop args ''content''))
                    (\<lambda>logged. world step name [get_prop args ''path'', get_prop args ''content''])
           else if name = ''read_file''
             then world step name [get_prop args ''path'']
           else if name = ''list_files''
             then world step name
                    [js_or (get_prop args ''dir'') (js_or (get_prop args ''path'') (Some (JStr ''.'')))]
           else if name = ''search_files''
             then world step name
                    [get_prop args ''query'', js_or (get_prop args ''path'') (Some (JStr ''.''))]
           else if name = ''git_clone''
             then world step name
                    [get_prop args ''url'', js_or (get_prop args ''targetDir'') (Some (JStr ''.''))]
           else if name = ''git_status''
             then world step name []
           else if name = ''git_diff''
             then world step name [get_prop args ''file'']
           else if name = ''git_add''
             then world step name [js_or (get_prop args ''files'') (Some (JStr ''.''))]
           else if name = ''git_commit''
             then then_js (log_substring ''git_commit'' ''message'' (get_prop args ''message''))
                    (\<lambda>logged. world step name [get_prop args ''message''])
           else if name = ''git_push''
             then world step name [js_or (get_prop args ''branch'') (Some (JStr ''main''))]
           else if name = ''git_create_pr''
             then then_js (log_substring ''git_create_pr'' ''title'' (get_prop args ''title''))
                    (\<lambda>logged. world step name
                          [get_prop args ''title'', js_or (get_prop args ''body'') (Some (JStr []))])
           else if name \<in> {''git_stash_backup'', ''git_restore_backup'', ''git_clear_backup''}
             then world step name []
           else if name = ''git_log''
             then world step name [js_or (get_prop args ''count'') (Some (JNum 5))]
           else if name \<in> {''npm_install'', ''run_build'', ''run_lint''}
             then world step name []
           else if name = ''start_dev_server''
             then world step name [js_or (get_prop args ''port'') (Some (JNum 3000))]
           else if name = ''stop_dev_server''
             then world step name []
           else if name = ''check_dev_server''
             then world step name [js_or (get_prop args ''path'') (Some (JStr ''/''))]
           else if name = ''check_build_output''
             then world step name []
           else if name = ''run_command''
             then world step name
                    [get_prop args ''command'', js_or (get_prop args ''args'') (Some (JArr []))]
           else if name \<in> {''take_screenshot'', ''verify_deployment'', ''wait_for_dev_server'',
                            ''extract_page_content''}
             then world step name [args]
           else unhandled_tool key)
      | _ \<Rightarrow> unhandled_tool key)"

definition json_or_empty_array :: "json option \<Rightarrow> json" where
  "json_or_empty_array v = (case js_or v (Some (JArr [])) of None \<Rightarrow> JArr [] | Some x \<Rightarrow> x)"

definition json_or_slash :: "json option \<Rightarrow> json" where
  "json_or_slash v = (case js_or v (Some (JStr ''/'')) of None \<Rightarrow> JStr ''/'' | Some x \<Rightarrow> x)"

text \<open>The updates of the state after the tool has returned, in the order of the source.\<close>

definition record_result :: "json \<Rightarrow> json option \<Rightarrow> tool_result \<Rightarrow> agent_state \<Rightarrow> agent_state" where
  "record_result toolName args result st =
     (let st1 = (if toolName = JStr ''run_build''
                 then setBuildStatus (success result)
                        (json_or_empty_array (get_prop (data result) ''errors''))
                        (get_prop (data result) ''stdout'') st
                 else st);
          st2 = (if toolName = JStr ''start_dev_server'' \<and> success result
                 then setDevServerStatus True (get_prop (data result) ''port'')
                        (get_prop (data result) ''pid'') st1
                 else st1);
          st3 = (if toolName = JStr ''stop_dev_server''
                 then setDevServerStatus False None None st2
                 else st2);
          st4 = (if toolName = JStr ''check_dev_server''
                 then setVerificationStatus (success result)
                        [(json_or_slash (get_prop args ''path''), success result)] st3
                 else st3);
          st5 = (if toolName = JStr ''git_commit'' \<and> success result
                 then setGitStatus True False (get_prop (data result) ''commit_hash'') None None st4
                 else st4);
          st6 = (if toolName = JStr ''git_push'' \<and> success result
                 then setGitStatus True True (commit_hash (git st5))
                        (get_prop (data result) ''branch'') None st5
                 else st5);
          st7 = (if toolName = JStr ''git_create_pr'' \<and> success result
                 then setGitStatus True True (commit_hash (git st6))
                        (get_prop (data result) ''branch'') (get_prop (data result) ''pr_url'') st6
                 else st6)
      in st7)"

text \<open>
  \<open>executeToolWithArgs\<close> returns the tool's result, or throws; in both cases the state is
  what the call has made of it.  Its first line logs \<open>toolName\<close> in a template literal,
  and \<open>allTools[toolName]\<close> reads the property of that key.
\<close>

definition executeToolWithArgs ::
  "tool_world \<Rightarrow> nat \<Rightarrow> json \<Rightarrow> json option \<Rightarrow> agent_state \<Rightarrow> tool_result js \<times> agent_state" where
  "executeToolWithArgs world step toolName args st =
     (case js_to_string toolName of
        Throw e \<Rightarrow> (Throw e, st)
      | Return key \<Rightarrow>
          if \<not> allTools_truthy key
          then (Return \<lparr>success = False, data = None,
                        error = Some (''Unknown tool: '' @ key)\<rparr>, st)
          else (let st1 = (if toolName = JStr ''write_file'' \<and> truthy_opt (get_prop args ''path'')
                           then addChangedFile (the (get_prop args ''path'')) st
                           else st)
                in case switch_tool world step toolName key args of
                     Throw e \<Rightarrow> (Throw e, st1)
                   | Return result \<Rightarrow> (Return result, record_result toolName args result st1)))"

text \<open>
  One pass of the \<open>while\<close> loop of \<open>main\<close>.  The pass ends with \<open>continue\<close> or at the end of
  the body (\<open>Continue\<close>), with one of the three \<open>break\<close>s, or with an exception that nothing
  in \<open>main\<close> catches; the handler on \<open>main()\<close> then ends the process.  An outcome carries
  the state and the history as they are at that moment.
\<close>

datatype exit_path =
    ConditionFalse
  | LLMCallFailed
  | DoneAction
  | NoToolSpecified
  | UncaughtException string

datatype pass_outcome =
    Continue agent_state "message list"
  | Break exit_path agent_state "message list" bool "json option"

type_synonym llm_world = "nat \<Rightarrow> message list \<Rightarrow> llm_reply"

definition assistant_message :: "json \<Rightarrow> message" where
  "assistant_message action = \<lparr>role = ''assistant'', content = JSON_stringify action\<rparr>"

definition uncaught :: "js_error \<Rightarrow> agent_state \<Rightarrow> message list \<Rightarrow> pass_outcome" where
  "uncaught e st messages = Break (UncaughtException (error_text e)) st messages False None"

text \<open>
  The pass from the return of the tool on: the error is recorded, the action and the
  formatted result are pushed on the history, and every third pass the state summary.
\<close>

definition after_tool ::
  "json \<Rightarrow> json \<Rightarrow> nat \<Rightarrow> tool_result \<Rightarrow> agent_state \<Rightarrow> message list \<Rightarrow> pass_outcome" where
  "after_tool action toolName step toolResult st messages =
     (case (if isError_result toolResult \<and> \<not> str_truthy (error toolResult)
            then then_js (js_to_string toolName) (\<lambda>name. Return (name @ '' failed''))
            else Return (case error toolResult of None \<Rightarrow> [] | Some e \<Rightarrow> e)) of
        Throw e \<Rightarrow> uncaught e st messages
      | Return err \<Rightarrow>
          (let st1 = (if isError_result toolResult then addIterationError err st else st);
               messages1 = messages @ [assistant_message action]
           in case formatToolResult toolName toolResult of
                Throw e \<Rightarrow> uncaught e st1 messages1
              | Return formatted \<Rightarrow>
                  if step mod 3 = 0
                  then (case formatStateSummary st1 of
                          Throw e \<Rightarrow> uncaught e st1 (messages1 @ [formatted])
                        | Return summary \<Rightarrow> Continue st1 (messages1 @ [formatted, summary]))
                  else Continue st1 (messages1 @ [formatted])))"

definition no_tool :: "agent_state \<Rightarrow> message list \<Rightarrow> pass_outcome" where
  "no_tool st messages =
     Break NoToolSpecified (addIterationError ''Invalid LLM response'' st) messages False None"

text \<open>
  The branch of a plan action: the log lines interpolate \<open>action.plan.length\<close> and, in the
  callback of \<open>forEach\<close>, every step; \<open>forEach\<close> exists on arrays only.
\<close>

definition plan_action :: "json \<Rightarrow> json \<Rightarrow> agent_state \<Rightarrow> message list \<Rightarrow> pass_outcome" where
  "plan_action action planValue st messages =
     (case js_to_string_opt (js_length planValue) of
        Throw e \<Rightarrow> uncaught e st messages
      | Return n \<Rightarrow>
          (case planValue of
             JArr planSteps \<Rightarrow>
               (if list_all convertible planSteps
                then Continue (setPlan (JArr planSteps) st)
                       (messages @ [assistant_message action,
                          \<lparr>role = ''user'',
                           content = ''Execute the plan step by step. Start with step 1.''\<rparr>])
                else uncaught cannot_convert st messages)
           | _ \<Rightarrow> uncaught (not_a_function ''action.plan.forEach'') st messages))"

definition loop_pass ::
  "tool_world \<Rightarrow> llm_world \<Rightarrow> (string \<Rightarrow> json option) \<Rightarrow> agent_state \<Rightarrow> message list \<Rightarrow> pass_outcome" where
  "loop_pass world llm JSON_parse st0 messages =
     (let st = incrementIteration st0;
          step = count (iteration st)
      in case callLLM JSON_parse (llm step messages) of
           Failure e \<Rightarrow> Break LLMCallFailed (addIterationError e st) messages False None
         | Success action \<Rightarrow>
             if truthy_opt (get_prop (Some action) ''plan'')
             then plan_action action (the (get_prop (Some action) ''plan'')) st messages
             else if truthy_opt (get_prop (Some action) ''done'')
             then (case js_to_string_opt (get_prop (Some action) ''result'') of
                     Throw e \<Rightarrow> uncaught e st messages
                   | Return logged \<Rightarrow>
                       Break DoneAction st messages True (get_prop (Some action) ''result''))
             else (case get_prop (Some action) ''tool'' of
                     None \<Rightarrow> no_tool st messages
                   | Some toolName \<Rightarrow>
                       if \<not> truthy toolName then no_tool st messages
                       else (case executeToolWithArgs world step toolName
                                    (js_or (get_prop (Some action) ''args'') (Some (JObj []))) st of
                               (Throw e, st1) \<Rightarrow> uncaught e st1 messages
                             | (Return toolResult, st1) \<Rightarrow>
                                 after_tool action toolName step toolResult st1 messages)))"

record run =
  final_state :: agent_state
  final_messages :: "message list"
  done_flag :: bool
  finalResult :: "json option"
  exit_by :: exit_path
  passes :: nat

text \<open>
  The outcomes of a pass, case by case.  The loop terminates because every pass that
  continues has raised the counter by one.
\<close>

lemma executeToolWithArgs_iteration:
  "executeToolWithArgs world step toolName args st = (outcome, st') \<Longrightarrow>
   iteration st' = iteration st"
  by (auto simp: executeToolWithArgs_def record_result_def addChangedFile_def Let_def
        setBuildStatus_def setDevServerStatus_def setVerificationStatus_def setGitStatus_def
      split: if_splits js.splits)

lemma after_tool_outcome:
  "(\<exists>st' messages'.
      after_tool action toolName step toolResult st messages = Continue st' messages'
      \<and> count (iteration st') = count (iteration st)
      \<and> max_iterations (iteration st') = max_iterations (iteration st))
   \<or> (\<exists>e st' messages'.
      after_tool action toolName step toolResult st messages
        = Break (UncaughtException e) st' messages' False None
      \<and> count (iteration st') = count (iteration st)
      \<and> max_iterations (iteration st') = max_iterations (iteration st))"
  by (simp add: after_tool_def Let_def addIterationError_def uncaught_def then_js_def
      split: js.splits)

lemma plan_action_outcome:
  "(\<exists>planSteps. planValue = JArr planSteps
      \<and> plan_action action planValue st messages
          = Continue (setPlan (JArr planSteps) st)
              (messages @ [assistant_message action,
                 \<lparr>role = ''user'',
                  content = ''Execute the plan step by step. Start with step 1.''\<rparr>]))
   \<or> (\<exists>e. plan_action action planValue st messages
          = Break (UncaughtException e) st messages False None)"
  by (cases planValue) (simp_all add: plan_action_def uncaught_def split: js.splits)

lemma loop_pass_cases:
  fixes world llm JSON_parse st messages
  defines "st1 \<equiv> incrementIteration st"
  defines "out \<equiv> loop_pass world llm JSON_parse st messages"
  obtains
    (llm_failed) e where
      "out = Break LLMCallFailed (addIterationError e st1) messages False None"
  | (plan) action planSteps where
      "out = Continue (setPlan (JArr planSteps) st1)
               (messages @ [assistant_message action,
                  \<lparr>role = ''user'',
                   content = ''Execute the plan step by step. Start with step 1.''\<rparr>])"
  | (threw) e st2 messages2 where
      "out = Break (UncaughtException e) st2 messages2 False None"
      "count (iteration st2) = count (iteration st1)"
      "max_iterations (iteration st2) = max_iterations (iteration st1)"
  | (done_action) action where
      "out = Break DoneAction st1 messages True (get_prop (Some action) ''result'')"
  | (no_tool) action where
      "callLLM JSON_parse (llm (count (iteration st1)) messages) = Success action"
      "\<not> truthy_opt (get_prop (Some action) ''plan'')"
      "\<not> truthy_opt (get_prop (Some action) ''done'')"
      "\<not> truthy_opt (get_prop (Some action) ''tool'')"
      "out = no_tool st1 messages"
  | (tool_returned) action toolName toolResult st2 st3 messages3 where
      "callLLM JSON_parse (llm (count (iteration st1)) messages) = Success action"
      "get_prop (Some action) ''tool'' = Some toolName"
      "executeToolWithArgs world (count (iteration st1)) toolName
         (js_or (get_prop (Some action) ''args'') (Some (JObj []))) st1 = (Return toolResult, st2)"
      "after_tool action toolName (count (iteration st1)) toolResult st2 messages
         = Continue st3 messages3"
      "out = Continue st3 messages3"
      "count (iteration st3) = count (iteration st1)"
      "max_iterations (iteration st3) = max_iterations (iteration st1)"
proof (cases "callLLM JSON_parse (llm (count (iteration st1)) messages)")
  case (Failure e)
  then have "out = Break LLMCallFailed (addIterationError e st1) messages False None"
    by (simp add: out_def st1_def loop_pass_def Let_def)
  then show ?thesis by (rule llm_failed)
next
  case (Success action)
  show ?thesis
  proof (cases "truthy_opt (get_prop (Some action) ''plan'')")
    case True
    with Success have o: "out = plan_action action (the (get_prop (Some action) ''plan''))
                                 st1 messages"
      by (simp add: out_def st1_def loop_pass_def Let_def)
    from plan_action_outcome [of "the (get_prop (Some action) ''plan'')" action st1 messages]
    show ?thesis
    proof (elim disjE exE conjE)
      fix planSteps
      assume "plan_action action (the (get_prop (Some action) ''plan'')) st1 messages
          = Continue (setPlan (JArr planSteps) st1)
              (messages @ [assistant_message action,
                 \<lparr>role = ''user'',
                  content = ''Execute the plan step by step. Start with step 1.''\<rparr>])"
      with o show ?thesis using plan by simp
    next
      fix e
      assume "plan_action action (the (get_prop (Some action) ''plan'')) st1 messages
          = Break (UncaughtException e) st1 messages False None"
      with o show ?thesis using threw [of e st1 messages] by simp
    qed
  next
    case False
    note noplan = this
    show ?thesis
    proof (cases "truthy_opt (get_prop (Some action) ''done'')")
      case True
      show ?thesis
      proof (cases "js_to_string_opt (get_prop (Some action) ''result'')")
        case (Return logged)
        with Success noplan True
        have "out = Break DoneAction st1 messages True (get_prop (Some action) ''result'')"
          by (simp add: out_def st1_def loop_pass_def Let_def)
        then show ?thesis by (rule done_action)
      next
        case (Throw e)
        with Success noplan True
        have "out = Break (UncaughtException (error_text e)) st1 messages False None"
          by (simp add: out_def st1_def loop_pass_def Let_def uncaught_def)
        then show ?thesis using threw [of "error_text e" st1 messages] by simp
      qed
    next
      case False
      note nodone = this
      show ?thesis
      proof (cases "truthy_opt (get_prop (Some action) ''tool'')")
        case False
        with Success noplan nodone have "out = no_tool st1 messages"
          by (auto simp: out_def st1_def loop_pass_def Let_def split: option.splits)
        with Success noplan nodone False show ?thesis by (rule no_tool)
      next
        case True
        then obtain toolName where t: "get_prop (Some action) ''tool'' = Some toolName"
          and tt: "truthy toolName"
          by (cases "get_prop (Some action) ''tool''") auto
        obtain outcome st2 where
          x: "executeToolWithArgs world (count (iteration st1)) toolName
                (js_or (get_prop (Some action) ''args'') (Some (JObj []))) st1 = (outcome, st2)"
          by (cases "executeToolWithArgs world (count (iteration st1)) toolName
                (js_or (get_prop (Some action) ''args'') (Some (JObj []))) st1") auto
        note it = executeToolWithArgs_iteration [OF x]
        show ?thesis
        proof (cases outcome)
          case (Throw e)
          with x Success noplan nodone t tt
          have "out = Break (UncaughtException (error_text e)) st2 messages False None"
            by (simp add: out_def st1_def loop_pass_def Let_def uncaught_def)
          then show ?thesis using threw [of "error_text e" st2 messages] it by simp
        next
          case (Return toolResult)
          with x Success noplan nodone t tt
          have o: "out = after_tool action toolName (count (iteration st1)) toolResult st2 messages"
            by (simp add: out_def st1_def loop_pass_def Let_def)
          from after_tool_outcome [of action toolName "count (iteration st1)" toolResult st2
                 messages]
          show ?thesis
          proof (elim disjE exE conjE)
            fix st3 messages3
            assume a: "after_tool action toolName (count (iteration st1)) toolResult st2 messages
                         = Continue st3 messages3"
              and "count (iteration st3) = count (iteration st2)"
              and "max_iterations (iteration st3) = max_iterations (iteration st2)"
            with o it Success t x Return show ?thesis
              using tool_returned [of action toolName toolResult st2 st3 messages3] by simp
          next
            fix e st3 messages3
            assume "after_tool action toolName (count (iteration st1)) toolResult st2 messages
                         = Break (UncaughtException e) st3 messages3 False None"
              and "count (iteration st3) = count (iteration st2)"
              and "max_iterations (iteration st3) = max_iterations (iteration st2)"
            with o it show ?thesis using threw [of e st3 messages3] by simp
          qed
        qed
      qed
    qed
  qed
qed

lemma loop_pass_count:
  assumes "loop_pass world llm JSON_parse st messages = Continue st' messages'"
  shows "count (iteration st') = count (iteration st) + 1"
proof (cases rule: loop_pass_cases [of world llm JSON_parse st messages])
  case (plan action planSteps)
  with assms show ?thesis by (auto simp: setPlan_def incrementIteration_def)
next
  case (tool_returned action toolName toolResult st2 st3 messages3)
  with assms show ?thesis by (auto simp: incrementIteration_def)
qed (use assms in \<open>simp_all add: no_tool_def\<close>)

function agent_loop ::
  "tool_world \<Rightarrow> llm_world \<Rightarrow> (string \<Rightarrow> json option) \<Rightarrow> nat
   \<Rightarrow> agent_state \<Rightarrow> message list \<Rightarrow> bool \<Rightarrow> nat \<Rightarrow> run" where
  "agent_loop world llm JSON_parse maxSteps st messages done n =
     (if count (iteration st) < maxSteps \<and> \<not> done
      then (case loop_pass world llm JSON_parse st messages of
              Continue st' messages' \<Rightarrow>
                agent_loop world llm JSON_parse maxSteps st' messages' done (n + 1)
            | Break e st' messages' done' res \<Rightarrow>
                \<lparr>final_state = st', final_messages = messages', done_flag = done',
                 finalResult = res, exit_by = e, passes = n + 1\<rparr>)
      else \<lparr>final_state = st, final_messages = messages, done_flag = done,
            finalResult = None, exit_by = ConditionFalse, passes = n\<rparr>)"
  by pat_completeness auto
termination
  by (relation "measure (\<lambda>(world, llm, JSON_parse, maxSteps, st, messages, done, n).
                  maxSteps - count (iteration st))")
     (auto dest: loop_pass_count)

declare agent_loop.simps [simp del]

text \<open>
  The loop as \<open>main\<close> starts it: the state is reset, the maximum and the goal are set, the
  history holds the goal, \<open>done\<close> is false.
\<close>

definition main_loop ::
  "tool_world \<Rightarrow> llm_world \<Rightarrow> (string \<Rightarrow> json option) \<Rightarrow> string \<Rightarrow> run" where
  "main_loop world llm JSON_parse g =
     agent_loop world llm JSON_parse MAX_STEPS
       (setGoal g (update_max MAX_STEPS initialState)) [formatGoal g] False 0"

section \<open>tools/browser.js: \<open>verify_url\<close>\<close>

text \<open>
  The GET request is made by the runtime: for a URL and a timeout it ends with a response
  (status code and body), with an error, or with the timeout event.  Before the \<open>try\<close>
  block, destructuring \<open>args\<close> throws when \<open>args\<close> is \<open>undefined\<close> or \<open>null\<close>, and the
  log line converts \<open>url\<close> to a string.  Inside it, \<open>url.startsWith\<close> exists on strings
  only, and \<open>body.includes\<close> converts \<open>expectedContent\<close> to a string; what is thrown
  there is caught and returned as a failure with the exception's message.
\<close>

datatype http_outcome =
    Response int string
  | RequestError string
  | RequestTimeout

definition timeout_of :: "json option \<Rightarrow> json" where
  "timeout_of args = (case get_prop args ''timeout'' of None \<Rightarrow> JNum 10000 | Some t \<Rightarrow> t)"

definition caught :: "js_error \<Rightarrow> tool_result js" where
  "caught e = Return \<lparr>success = False, data = None, error = Some (message_of e)\<rparr>"

definition verify_url ::
  "(string \<Rightarrow> json \<Rightarrow> http_outcome) \<Rightarrow> json option \<Rightarrow> tool_result js" where
  "verify_url http_get args =
     (case args of
        None \<Rightarrow> Throw (TypeError (''Cannot destructure property '' @ [CHR 0x27] @ ''url''
                  @ [CHR 0x27] @ '' of '' @ [CHR 0x27] @ ''args'' @ [CHR 0x27]
                  @ '' as it is undefined.''))
      | Some JNull \<Rightarrow> Throw (TypeError (''Cannot destructure property '' @ [CHR 0x27] @ ''url''
                  @ [CHR 0x27] @ '' of '' @ [CHR 0x27] @ ''args'' @ [CHR 0x27]
                  @ '' as it is null.''))
      | Some a \<Rightarrow>
       (let url = get_prop args ''url'';
            expectedContent = get_prop args ''expectedContent'';
            timeout = timeout_of args
        in if \<not> truthy_opt url
           then Return \<lparr>success = False, data = None, error = Some ''url is required''\<rparr>
           else then_js (js_to_string_opt url) (\<lambda>logged.
                case url of
                  Some (JStr u) \<Rightarrow>
                    (case http_get u timeout of
                       Response statusCode body \<Rightarrow>
                         (case (if truthy_opt expectedContent
                                then then_js (js_to_string_opt expectedContent)
                                       (\<lambda>searchString. Return (str_includes body searchString))
                                else Return True) of
                            Throw e \<Rightarrow> caught e
                          | Return contentMatch \<Rightarrow>
                              Return
                               \<lparr>success = True,
                                data = Some (JObj
                                  [(''url'', JStr u),
                                   (''statusCode'', JNum statusCode),
                                   (''accessible'', JBool (statusCode \<ge> 200 \<and> statusCode < 400)),
                                   (''contentMatch'', JBool contentMatch),
                                   (''bodyLength'', JNum (int (length body))),
                                   (''hasExpectedContent'',
                                      if truthy_opt expectedContent then JBool contentMatch
                                      else JStr ''not checked'')]),
                                error = None\<rparr>)
                     | RequestError e \<Rightarrow>
                         Return \<lparr>success = False, data = None, error = Some e\<rparr>
                     | RequestTimeout \<Rightarrow>
                         Return \<lparr>success = False, data = None, error = Some ''Request timeout''\<rparr>)
                | _ \<Rightarrow> caught (not_a_function ''url.startsWith''))))"

text \<open>Two servers: one answers every request with 200, one with 404.\<close>

definition http_always_ok :: "string \<Rightarrow> json \<Rightarrow> http_outcome" where
  "http_always_ok u t = Response 200 ''ok''"

definition http_not_found :: "string \<Rightarrow> json \<Rightarrow> http_outcome" where
  "http_not_found u t = Response 404 ''Not Found''"

section \<open>The action shapes of the specification\<close>

text \<open>
  The three shapes of an action: \<open>{plan: [steps]}\<close>, \<open>{tool, args}\<close> and
  \<open>{done: true, result}\<close>.  A parsed reply is well-shaped when it has exactly one of them.
\<close>

definition shape_plan :: "json \<Rightarrow> bool" where
  "shape_plan v = (case get_prop (Some v) ''plan'' of Some (JArr xs) \<Rightarrow> True | _ \<Rightarrow> False)"

definition shape_tool :: "json \<Rightarrow> bool" where
  "shape_tool v = (get_prop (Some v) ''tool'' \<noteq> None \<and> get_prop (Some v) ''args'' \<noteq> None)"

definition shape_done :: "json \<Rightarrow> bool" where
  "shape_done v =
     (get_prop (Some v) ''done'' = Some (JBool True) \<and> get_prop (Some v) ''result'' \<noteq> None)"

definition exactly_one_shape :: "json \<Rightarrow> bool" where
  "exactly_one_shape v =
     (length (filter id [shape_plan v, shape_tool v, shape_done v]) = 1)"

text \<open>A reply that declares itself done and names a tool as well.\<close>

definition done_and_tool :: json where
  "done_and_tool =
     JObj [(''done'', JBool True), (''result'', JStr ''Finished''),
           (''tool'', JStr ''run_build''), (''args'', JObj [])]"

definition parse_as :: "json \<Rightarrow> string \<Rightarrow> json option" where
  "parse_as v c = Some v"

text \<open>
  An object with an own property \<open>toString\<close>, which no template literal can interpolate;
  a done reply with such a result, a tool call with such a tool name.
\<close>

definition unconvertible :: json where
  "unconvertible = JObj [(''toString'', JNum 1)]"

definition done_unconvertible :: json where
  "done_unconvertible = JObj [(''done'', JBool True), (''result'', unconvertible)]"

definition tool_unconvertible :: json where
  "tool_unconvertible = JObj [(''tool'', unconvertible), (''args'', JObj [])]"

section \<open>tools/filesystem.js: \<open>read_file\<close>\<close>

text \<open>
  The file system answers a read of an absolute path: no such file, an error of the read
  (caught by the tool's \<open>try\<close>), or the content with its size in bytes.  The path handed to
  \<open>path.relative\<close> has passed \<open>safePath\<close>, so it is the root or continues it after a
  separator, and the relative path is what follows.
\<close>

datatype fs_read = NoFile | ReadError string | File string nat

definition relative_within :: "string \<Rightarrow> string \<Rightarrow> string" where
  "relative_within root p =
     (if p = root then []
      else drop (length (if endsWith root sep then root else root @ sep)) p)"

definition read_file ::
  "string \<Rightarrow> string \<Rightarrow> (string \<Rightarrow> fs_read) \<Rightarrow> string \<Rightarrow> tool_result" where
  "read_file cwd PROJECT_ROOT fs filePath =
     (case safePath cwd PROJECT_ROOT filePath of
        Invalid err \<Rightarrow> \<lparr>success = False, data = None, error = Some err\<rparr>
      | Valid p \<Rightarrow>
          (case fs p of
             NoFile \<Rightarrow>
               \<lparr>success = False, data = None, error = Some (''File not found: '' @ filePath)\<rparr>
           | ReadError e \<Rightarrow> \<lparr>success = False, data = None, error = Some e\<rparr>
           | File text bytes \<Rightarrow>
               \<lparr>success = True,
                data = Some (JObj
                  [(''path'', JStr p),
                   (''relativePath'', JStr (relative_within PROJECT_ROOT p)),
                   (''content'', JStr text),
                   (''size'', JNum (int bytes))]),
                error = None\<rparr>))"

text \<open>A file system with one file, \<open>/vercel/sandbox/README.md\<close>, of a given content.\<close>

definition fs_readme :: "string \<Rightarrow> string \<Rightarrow> fs_read" where
  "fs_readme text p =
     (if p = ''/vercel/sandbox/README.md'' then File text (length text) else NoFile)"

section \<open>Sequences of tool results\<close>

text \<open>
  The state after a sequence of tool invocations: each entry is the tool name, the arguments
  and the result that \<open>executeToolWithArgs\<close> records.
\<close>

fun record_results :: "(json \<times> json option \<times> tool_result) list \<Rightarrow> agent_state \<Rightarrow> agent_state" where
  "record_results [] st = st"
| "record_results ((toolName, args, result) # rest) st =
     record_results rest (record_result toolName args result st)"

text \<open>A successful push to a feature branch, and a successful commit.\<close>

definition push_ok :: tool_result where
  "push_ok =
     \<lparr>success = True,
      data = Some (JObj [(''branch'', JStr ''agent/changes-1700000000000''),
                         (''originalRequest'', JStr ''main''),
                         (''pushed'', JBool True),
                         (''stdout'', JStr []),
                         (''note'', JStr ''Pushed to feature branch instead of main for safety. Use git_create_pr to create a pull request.'')]),
      error = None\<rparr>"

definition commit_ok :: tool_result where
  "commit_ok =
     \<lparr>success = True,
      data = Some (JObj [(''message'', JStr ''feat: add item''),
                         (''commit_hash'', JStr ''abc1234''),
                         (''stdout'', JStr ''[main abc1234] feat: add item'')]),
      error = None\<rparr>"

text \<open>
  What a step of the run must keep of the git record: a true \<open>committed\<close> flag, a set
  \<open>branch\<close>, a set \<open>pr_url\<close>, and that \<open>pushed\<close> comes with \<open>committed\<close>.
\<close>

definition git_keeps :: "agent_state \<Rightarrow> agent_state \<Rightarrow> bool" where
  "git_keeps st st' =
     ((committed (git st) \<longrightarrow> committed (git st'))
      \<and> (branch (git st) \<noteq> None \<longrightarrow> branch (git st') \<noteq> None)
      \<and> (pr_url (git st) \<noteq> None \<longrightarrow> pr_url (git st') \<noteq> None)
      \<and> ((pushed (git st) \<longrightarrow> committed (git st))
           \<longrightarrow> (pushed (git st') \<longrightarrow> committed (git st'))))"

section \<open>Example worlds\<close>

text \<open>
  An LLM that answers every request with the same content, finished normally; a world
  whose tools all fail with exit code 1.
\<close>

definition llm_says :: "string \<Rightarrow> llm_world" where
  "llm_says c step messages = Body (Some c) (Some ''stop'')"

definition tools_fail :: tool_world where
  "tools_fail step name args =
     Return \<lparr>success = False,
             data = Some (JObj [(''exitCode'', JNum 1), (''stdout'', JStr []),
                                (''stderr'', JStr ''error TS2304: Cannot find name'')]),
             error = None\<rparr>"

definition build_call :: json where
  "build_call = JObj [(''tool'', JStr ''run_build''), (''args'', JObj [])]"

definition plan_as_text :: json where
  "plan_as_text = JObj [(''plan'', JStr ''Read the file, then edit it'')]"

definition write_without_content :: json where
  "write_without_content =
     JObj [(''tool'', JStr ''write_file''), (''args'', JObj [(''path'', JStr ''a.txt'')])]"

text \<open>
  A plain relative path: no null byte, and every segment between separators is non-empty
  and is neither \<open>.\<close> nor \<open>..\<close>.
\<close>

definition plain_segment :: "string \<Rightarrow> bool" where
  "plain_segment seg = (seg \<noteq> [] \<and> seg \<noteq> ''.'' \<and> seg \<noteq> ''..'' \<and> CHR ''/'' \<notin> set seg)"

definition plain_relative :: "string \<Rightarrow> bool" where
  "plain_relative p = (CHR 0x00 \<notin> set p \<and> list_all plain_segment (split_sep p))"

section \<open>Shared lemmas\<close>

lemma done_action_keys:
  "get_prop (Some (done_action parsed)) ''done'' = Some (JBool True)
   \<and> get_prop (Some (done_action parsed)) ''plan'' = None
   \<and> get_prop (Some (done_action parsed)) ''tool'' = None
   \<and> get_prop (Some (done_action parsed)) ''result'' = get_prop (Some parsed) ''result''"
  by (simp add: done_action_def split: option.splits)

section \<open>Properties of the path guard\<close>

lemma path_resolve_absolute: "prefix ''/'' (path_resolve cwd a b)"
  by (simp add: path_resolve_def)

lemma final_check_rejects:
  assumes ok: "root = ''/'' \<or> \<not> endsWith root ''/''"
    and out: "\<not> within_root root r"
    and ab: "prefix ''/'' r"
  shows "r \<noteq> root
       \<and> \<not> startsWith (if endsWith r sep then r else r @ sep)
                        (if endsWith root sep then root else root @ sep)"
proof -
  let ?nroot = "if endsWith root sep then root else root @ sep"
  from ok have nroot: "?nroot = (if root = ''/'' then root else root @ ''/'')"
    by (auto simp: endsWith_def sep_def)
  from out have ne: "r \<noteq> root" and np: "\<not> prefix ?nroot r"
    unfolding nroot by (auto simp: within_root_def)
  have "\<not> prefix ?nroot (r @ ''/'')"
  proof
    assume "prefix ?nroot (r @ ''/'')"
    with np have eq: "?nroot = r @ ''/''"
      by (metis prefix_snoc)
    show False
    proof (cases "root = ''/''")
      case True
      with eq nroot have "r = []" by simp
      with ab show False by simp
    next
      case False
      with eq nroot have "root = r" by simp
      with ne show False by simp
    qed
  qed
  with ne np show ?thesis
    by (simp add: startsWith_def sep_def)
qed

text \<open>
  The roots the module can hold: the default, or what \<open>initialize\<close> has stored.  A resolved
  path is \<open>/\<close> or ends in a character of its last segment, never in a separator.
\<close>

lemma split_sep_nonempty: "split_sep s \<noteq> []"
  by (induction s) (auto split: list.splits)

lemma split_sep_no_sep: "seg \<in> set (split_sep s) \<Longrightarrow> CHR ''/'' \<notin> set seg"
proof (induction s arbitrary: seg)
  case Nil
  then show ?case by simp
next
  case (Cons c s)
  show ?case
  proof (cases "c = CHR ''/''")
    case True
    with Cons show ?thesis by auto
  next
    case False
    obtain x xs where sp: "split_sep s = x # xs"
      using split_sep_nonempty [of s] by (cases "split_sep s") auto
    with Cons.prems False have "seg = c # x \<or> seg \<in> set xs" by simp
    with Cons.IH sp False show ?thesis by auto
  qed
qed

lemma normalize_segments_subset:
  "x \<in> set (normalize_segments acc segs) \<Longrightarrow> x \<in> set acc \<or> (x \<in> set segs \<and> x \<noteq> [])"
proof (induction segs arbitrary: acc)
  case Nil
  then show ?case by simp
next
  case (Cons seg segs)
  consider (skip) "seg = [] \<or> seg = ''.''"
    | (up) "seg \<noteq> []" "seg \<noteq> ''.''" "seg = ''..''"
    | (keep) "seg \<noteq> []" "seg \<noteq> ''.''" "seg \<noteq> ''..''"
    by blast
  then show ?case
  proof cases
    case skip
    with Cons.prems have "x \<in> set (normalize_segments acc segs)" by auto
    from Cons.IH [OF this] show ?thesis by auto
  next
    case up
    with Cons.prems have "x \<in> set (normalize_segments (butlast acc) segs)" by simp
    from Cons.IH [OF this] show ?thesis by (auto dest: in_set_butlastD)
  next
    case keep
    with Cons.prems have "x \<in> set (normalize_segments (acc @ [seg]) segs)" by simp
    from Cons.IH [OF this] keep show ?thesis by auto
  qed
qed

lemma join_sep_last:
  assumes "segs \<noteq> []" and "\<forall>seg \<in> set segs. seg \<noteq> []"
  shows "join_sep segs \<noteq> [] \<and> last (join_sep segs) = last (last segs)"
  using assms
proof (induction segs rule: join_sep.induct)
  case 1
  then show ?case by simp
next
  case (2 seg)
  then show ?case by simp
next
  case (3 seg v va)
  then show ?case by simp
qed

lemma normalized_no_trailing_sep:
  "''/'' @ join_sep (normalize_segments [] (split_sep x)) = ''/''
   \<or> \<not> endsWith (''/'' @ join_sep (normalize_segments [] (split_sep x))) ''/''"
proof -
  define segs where "segs = normalize_segments [] (split_sep x)"
  have plain: "seg \<noteq> [] \<and> CHR ''/'' \<notin> set seg" if "seg \<in> set segs" for seg
  proof -
    from that have "seg \<in> set (split_sep x) \<and> seg \<noteq> []"
      unfolding segs_def by (auto dest: normalize_segments_subset)
    then show ?thesis using split_sep_no_sep by blast
  qed
  have "''/'' @ join_sep segs = ''/'' \<or> \<not> endsWith (''/'' @ join_sep segs) ''/''"
  proof (cases "segs = []")
    case True
    then show ?thesis by simp
  next
    case False
    with plain have ne: "\<forall>seg \<in> set segs. seg \<noteq> []" by blast
    from join_sep_last [OF False ne]
    have j: "join_sep segs \<noteq> []" and l: "last (join_sep segs) = last (last segs)"
      by simp_all
    from False have "last segs \<in> set segs" by simp
    with plain have "last segs \<noteq> []" and "CHR ''/'' \<notin> set (last segs)"
      by blast+
    then have "last (last segs) \<noteq> CHR ''/''"
      using last_in_set [of "last segs"] by metis
    with j l have "last (''/'' @ join_sep segs) \<noteq> CHR ''/''"
      by simp
    moreover have "last (''/'' @ join_sep segs) = CHR ''/''"
      if "endsWith (''/'' @ join_sep segs) ''/''"
      using that unfolding endsWith_def suffix_def by (metis last_appendR last.simps list.distinct(1))
    ultimately show ?thesis by blast
  qed
  then show ?thesis unfolding segs_def .
qed

lemma path_resolve_no_trailing_sep:
  "path_resolve cwd a b = ''/'' \<or> \<not> endsWith (path_resolve cwd a b) ''/''"
  unfolding path_resolve_def by (rule normalized_no_trailing_sep)

lemma module_root_form:
  assumes "root = default_PROJECT_ROOT \<or> root = initialize cwd0 given"
  shows "root = ''/'' \<or> \<not> endsWith root ''/''"
proof (cases "root = default_PROJECT_ROOT")
  case True
  then show ?thesis
    by (simp add: default_PROJECT_ROOT_def endsWith_def suffix_to_prefix)
next
  case False
  with assms have "root = path_resolve cwd0 [] given"
    by (simp add: initialize_def)
  with path_resolve_no_trailing_sep [of cwd0 "[]" given] show ?thesis
    by simp
qed


text \<open>Splitting and joining at separators, and the normal form of plain segments.\<close>

lemma join_split: "join_sep (split_sep s) = s"
proof (induction s)
  case Nil
  then show ?case by simp
next
  case (Cons c s)
  obtain x xs where sp: "split_sep s = x # xs"
    using split_sep_nonempty [of s] by (cases "split_sep s") auto
  show ?case
  proof (cases "c = CHR ''/''")
    case True
    with Cons sp show ?thesis by simp
  next
    case False
    with Cons sp show ?thesis by (cases xs) simp_all
  qed
qed

lemma split_append_sep: "split_sep (a @ ''/'' @ b) = split_sep a @ split_sep b"
proof (induction a)
  case Nil
  then show ?case by simp
next
  case (Cons c a)
  obtain x xs where sp: "split_sep a = x # xs"
    using split_sep_nonempty [of a] by (cases "split_sep a") auto
  with Cons show ?case by simp
qed

lemma split_plain: "CHR ''/'' \<notin> set seg \<Longrightarrow> split_sep seg = [seg]"
  by (induction seg) auto

lemma split_join:
  assumes "segs \<noteq> []" and "\<forall>seg \<in> set segs. CHR ''/'' \<notin> set seg"
  shows "split_sep (join_sep segs) = segs"
  using assms
proof (induction segs rule: join_sep.induct)
  case 1
  then show ?case by simp
next
  case (2 seg)
  then show ?case by (simp add: split_plain)
next
  case (3 seg v va)
  then have "split_sep (join_sep (v # va)) = v # va" by simp
  with 3 show ?case
    using split_append_sep [of seg "join_sep (v # va)"] by (simp add: split_plain)
qed

lemma join_append:
  "xs \<noteq> [] \<Longrightarrow> ys \<noteq> [] \<Longrightarrow> join_sep (xs @ ys) = join_sep xs @ ''/'' @ join_sep ys"
proof (induction xs rule: join_sep.induct)
  case 1
  then show ?case by simp
next
  case (2 seg)
  then show ?case by (cases ys) simp_all
next
  case (3 seg v va)
  then show ?case by simp
qed

lemma normalize_plain:
  "list_all plain_segment xs \<Longrightarrow> normalize_segments acc xs = acc @ xs"
  by (induction xs arbitrary: acc) (auto simp: plain_segment_def)

lemma normalize_append:
  "normalize_segments acc (xs @ ys) = normalize_segments (normalize_segments acc xs) ys"
  by (induction xs arbitrary: acc) auto

lemma normalize_segments_plain:
  "list_all plain_segment acc \<Longrightarrow>
   \<forall>seg \<in> set segs. CHR ''/'' \<notin> set seg \<Longrightarrow>
   list_all plain_segment (normalize_segments acc segs)"
proof (induction segs arbitrary: acc)
  case Nil
  then show ?case by simp
next
  case (Cons seg segs)
  have bl: "list_all plain_segment (butlast acc)"
    using Cons.prems(1) by (auto simp: list_all_iff dest: in_set_butlastD)
  have ap: "list_all plain_segment (acc @ [seg])"
    if "seg \<noteq> []" "seg \<noteq> ''.''" "seg \<noteq> ''..''"
  proof -
    from that Cons.prems(2) have "plain_segment seg"
      by (simp add: plain_segment_def)
    with Cons.prems(1) show ?thesis by simp
  qed
  from Cons.prems(2) have rest: "\<forall>s \<in> set segs. CHR ''/'' \<notin> set s" by simp
  show ?case
    using Cons.IH [OF Cons.prems(1) rest] Cons.IH [OF bl rest] Cons.IH [OF ap rest]
    by simp
qed


lemma module_root_segments:
  assumes "root = default_PROJECT_ROOT \<or> root = initialize cwd0 given" and "root \<noteq> ''/''"
  shows "\<exists>rs. rs \<noteq> [] \<and> list_all plain_segment rs \<and> root = ''/'' @ join_sep rs"
proof (cases "root = default_PROJECT_ROOT")
  case True
  have "[''vercel'', ''sandbox''] \<noteq> [] \<and> list_all plain_segment [''vercel'', ''sandbox'']
        \<and> root = ''/'' @ join_sep [''vercel'', ''sandbox'']"
    using True by (simp add: default_PROJECT_ROOT_def plain_segment_def)
  then show ?thesis by blast
next
  case False
  define rs where "rs = normalize_segments [] (split_sep (resolve_join [given, [], cwd0] []))"
  from False assms(1) have root: "root = ''/'' @ join_sep rs"
    by (simp add: initialize_def path_resolve_def rs_def)
  have "list_all plain_segment rs"
    unfolding rs_def
    by (rule normalize_segments_plain) (auto dest: split_sep_no_sep)
  moreover from root assms(2) have "rs \<noteq> []" by auto
  ultimately show ?thesis using root by blast
qed

lemma plain_relative_form:
  assumes "plain_relative p"
  shows "p \<noteq> [] \<and> hd p \<noteq> CHR ''/'' \<and> last p \<noteq> CHR ''/''
       \<and> split_sep p \<noteq> [] \<and> list_all plain_segment (split_sep p)"
proof -
  from assms have pl: "list_all plain_segment (split_sep p)"
    by (simp add: plain_relative_def)
  have ne: "p \<noteq> []"
    using pl by (auto simp: plain_segment_def)
  have hd: "hd p \<noteq> CHR ''/''"
    using pl ne by (cases p) (auto simp: plain_segment_def)
  have all: "\<forall>seg \<in> set (split_sep p). seg \<noteq> []"
    using pl by (auto simp: list_all_iff plain_segment_def)
  from join_sep_last [OF split_sep_nonempty all]
  have l: "last p = last (last (split_sep p))"
    by (simp add: join_split)
  have "last (split_sep p) \<in> set (split_sep p)"
    using split_sep_nonempty by simp
  with pl have "plain_segment (last (split_sep p))"
    by (simp add: list_all_iff)
  then have "last (last (split_sep p)) \<noteq> CHR ''/''"
    unfolding plain_segment_def using last_in_set [of "last (split_sep p)"] by metis
  with l ne hd pl split_sep_nonempty show ?thesis by simp
qed

lemma resolve_plain:
  assumes rs: "rs \<noteq> []" "list_all plain_segment rs" and p: "plain_relative p"
  shows "path_resolve cwd (''/'' @ join_sep rs) p = ''/'' @ join_sep rs @ ''/'' @ p"
proof -
  let ?root = "''/'' @ join_sep rs"
  let ?ps = "split_sep p"
  from plain_relative_form [OF p]
  have pne: "p \<noteq> []" and phd: "hd p \<noteq> CHR ''/''" and psne: "?ps \<noteq> []"
    and pspl: "list_all plain_segment ?ps"
    by simp_all
  have rj: "resolve_join [p, ?root, cwd] [] = ?root @ ''/'' @ (p @ ''/'' @ [])"
    using pne phd by simp
  have noslash: "\<forall>seg \<in> set rs. CHR ''/'' \<notin> set seg"
    using rs(2) by (auto simp: list_all_iff plain_segment_def)
  have sroot: "split_sep ?root = [] # rs"
    using split_append_sep [of "[]" "join_sep rs"] split_join [OF rs(1) noslash] by simp
  have sp: "split_sep (?root @ ''/'' @ (p @ ''/'' @ [])) = ([] # rs) @ (?ps @ [[]])"
    unfolding split_append_sep sroot by simp
  have all: "list_all plain_segment (rs @ ?ps)"
    using rs(2) pspl by simp
  have "normalize_segments [] (([] # rs) @ (?ps @ [[]]))
        = normalize_segments (normalize_segments [] (rs @ ?ps)) [[]]"
    using normalize_append [of "[]" "rs @ ?ps" "[[]]"] by simp
  also have "\<dots> = rs @ ?ps"
    using normalize_plain [OF all, of "[]"] by simp
  finally have n: "normalize_segments [] (([] # rs) @ (?ps @ [[]])) = rs @ ?ps" .
  have "join_sep (rs @ ?ps) = join_sep rs @ ''/'' @ p"
    using join_append [OF rs(1) psne] by (simp add: join_split)
  with n sp rj show ?thesis
    unfolding path_resolve_def by simp
qed

lemma pattern_loop_inside:
  "startsWith (path_resolve cwd root p) (root @ sep) \<or> path_resolve cwd root p = root \<Longrightarrow>
   pattern_loop ps cwd root p = None"
  by (induction ps) (auto simp: Let_def)

text \<open>
  Under a project root other than \<open>/\<close>, a path without null byte whose resolved form is
  within the root is accepted: acceptance is decided by the resolved path alone.
\<close>

lemma within_accepted:
  assumes root: "root = default_PROJECT_ROOT \<or> root = initialize cwd0 given" "root \<noteq> ''/''"
    and nul: "CHR 0x00 \<notin> set p"
    and within: "within_root root (path_resolve cwd root p)"
  shows "safePath cwd root p = Valid (path_resolve cwd root p)"
proof -
  let ?r = "path_resolve cwd root p"
  from module_root_form [OF root(1)] root(2) have nt: "\<not> endsWith root ''/''" by simp
  from within root(2) have w: "?r = root \<or> prefix (root @ ''/'') ?r"
    by (simp add: within_root_def)
  then have "startsWith ?r (root @ sep) \<or> ?r = root"
    by (auto simp: startsWith_def sep_def)
  then have pl: "pattern_loop suspiciousPatterns cwd root p = None"
    by (rule pattern_loop_inside)
  have "?r = root \<or> startsWith (if endsWith ?r sep then ?r else ?r @ sep) (root @ sep)"
    using w by (auto simp: startsWith_def sep_def)
  with nul nt pl show ?thesis
    by (auto simp: safePath_def Let_def sep_def)
qed

text \<open>
  A plain relative path is accepted under every project root other than \<open>/\<close>, and resolves
  to the root, a separator and the path.
\<close>

lemma plain_relative_accepted:
  assumes root: "root = default_PROJECT_ROOT \<or> root = initialize cwd0 given" "root \<noteq> ''/''"
    and p: "plain_relative p"
  shows "safePath cwd root p = Valid (root @ ''/'' @ p)"
proof -
  from module_root_segments [OF root] obtain rs where
    rs: "rs \<noteq> []" "list_all plain_segment rs" "root = ''/'' @ join_sep rs"
    by blast
  from resolve_plain [OF rs(1) rs(2) p, of cwd] rs(3)
  have res: "path_resolve cwd root p = root @ ''/'' @ p" by simp
  from module_root_form [OF root(1)] root(2) have nt: "\<not> endsWith root ''/''" by simp
  from p have nul: "CHR 0x00 \<notin> set p" by (simp add: plain_relative_def)
  from plain_relative_form [OF p] have pne: "p \<noteq> []" by simp
  have inside: "startsWith (path_resolve cwd root p) (root @ sep)
                \<or> path_resolve cwd root p = root"
    by (simp add: res startsWith_def sep_def)
  with nul nt pattern_loop_inside [OF inside] res show ?thesis
    by (simp add: safePath_def Let_def sep_def startsWith_def)
qed


text \<open>
  C1.  Let the project root be one the module can hold: the default, or what \<open>initialize\<close>
  stored.  Then, for every input path, whatever it contains (\<open>../\<close>, a leading separator,
  a null byte, a leading \<open>~\<close>): a path whose resolved form is not within the root is
  rejected; a path with a null byte is rejected; an accepted path is returned in its resolved
  form, which is within the root; and under a root other than \<open>/\<close> every path without null
  byte that resolves within the root is accepted, a plain relative path in particular, which
  resolves to the root, a separator and the path.  Under the root \<open>/proj\<close>,
  \<open>src/a.ts\<close> is accepted as \<open>/proj/src/a.ts\<close>, and the sibling \<open>/proj-other/x\<close> and the
  traversal \<open>../../etc/passwd\<close> are rejected.
\<close>

theorem safePath_confinement:
  assumes "root = default_PROJECT_ROOT \<or> root = initialize cwd0 given"
  shows "(\<not> within_root root (path_resolve cwd root p)
            \<longrightarrow> (\<exists>err. safePath cwd root p = Invalid err))
       \<and> (CHR 0x00 \<in> set p \<longrightarrow> (\<exists>err. safePath cwd root p = Invalid err))
       \<and> (\<forall>q. safePath cwd root p = Valid q
            \<longrightarrow> q = path_resolve cwd root p \<and> within_root root q)
       \<and> (root \<noteq> ''/'' \<and> CHR 0x00 \<notin> set p \<and> within_root root (path_resolve cwd root p)
            \<longrightarrow> safePath cwd root p = Valid (path_resolve cwd root p))
       \<and> (root \<noteq> ''/'' \<and> plain_relative p
            \<longrightarrow> safePath cwd root p = Valid (root @ ''/'' @ p))
       \<and> safePath cwd ''/proj'' ''src/a.ts'' = Valid ''/proj/src/a.ts''
       \<and> (\<exists>err. safePath cwd ''/proj'' ''/proj-other/x'' = Invalid err)
       \<and> (\<exists>err. safePath cwd ''/proj'' ''../../etc/passwd'' = Invalid err)"
proof -
  from assms have form: "root = ''/'' \<or> \<not> endsWith root ''/''"
    by (rule module_root_form)
  have escape: "\<exists>err. safePath cwd root p = Invalid err"
    if out: "\<not> within_root root (path_resolve cwd root p)"
  proof (cases "CHR 0x00 \<in> set p")
    case True
    then show ?thesis by (simp add: safePath_def)
  next
    case False
    show ?thesis
    proof (cases "pattern_loop suspiciousPatterns cwd root p")
      case (Some err)
      with False show ?thesis by (simp add: safePath_def)
    next
      case None
      from final_check_rejects [OF form out path_resolve_absolute] None False
      show ?thesis by (simp add: safePath_def Let_def)
    qed
  qed
  then have c1: "\<not> within_root root (path_resolve cwd root p)
            \<longrightarrow> (\<exists>err. safePath cwd root p = Invalid err)"
    by (rule impI)
  have c2: "CHR 0x00 \<in> set p \<longrightarrow> (\<exists>err. safePath cwd root p = Invalid err)"
    by (simp add: safePath_def)
  have c3: "\<forall>q. safePath cwd root p = Valid q
            \<longrightarrow> q = path_resolve cwd root p \<and> within_root root q"
  proof (intro allI impI)
    fix q
    assume v: "safePath cwd root p = Valid q"
    then have q: "q = path_resolve cwd root p"
      by (auto simp: safePath_def Let_def split: if_splits option.splits)
    have "within_root root (path_resolve cwd root p)"
    proof (rule ccontr)
      assume "\<not> within_root root (path_resolve cwd root p)"
      from escape [OF this] v show False by simp
    qed
    with q show "q = path_resolve cwd root p \<and> within_root root q" by simp
  qed
  have c4: "root \<noteq> ''/'' \<and> CHR 0x00 \<notin> set p \<and> within_root root (path_resolve cwd root p)
            \<longrightarrow> safePath cwd root p = Valid (path_resolve cwd root p)"
    using within_accepted [OF assms] by blast
  have c5: "root \<noteq> ''/'' \<and> plain_relative p
            \<longrightarrow> safePath cwd root p = Valid (root @ ''/'' @ p)"
    using plain_relative_accepted [OF assms] by blast
  have c6: "safePath cwd ''/proj'' ''src/a.ts'' = Valid ''/proj/src/a.ts''"
    by (simp add: safePath_def suspiciousPatterns_def startsWith_def endsWith_def sep_def
        path_resolve_def Let_def suffix_to_prefix)
  have c7: "\<exists>err. safePath cwd ''/proj'' ''/proj-other/x'' = Invalid err"
    by (simp add: safePath_def suspiciousPatterns_def startsWith_def endsWith_def sep_def
        path_resolve_def Let_def suffix_to_prefix)
  have c8: "\<exists>err. safePath cwd ''/proj'' ''../../etc/passwd'' = Invalid err"
    by (simp add: safePath_def suspiciousPatterns_def startsWith_def endsWith_def sep_def
        path_resolve_def Let_def suffix_to_prefix)
  show ?thesis
    by (intro conjI) (rule c1, rule c2, rule c3, rule c4, rule c5, rule c6, rule c7, rule c8)
qed

theorem safePath_confinement_witness:
  "(''/proj'' = default_PROJECT_ROOT \<or> ''/proj'' = initialize ''/home/agent'' ''/proj'')
   \<and> \<not> within_root ''/proj'' (path_resolve ''/home/agent'' ''/proj'' ''docs/../../proj-evil/x'')
   \<and> (\<exists>err. safePath ''/home/agent'' ''/proj'' ''docs/../../proj-evil/x'' = Invalid err)
   \<and> (''/proj'' \<noteq> ''/'' \<and> plain_relative ''src/lib/a.ts'')
   \<and> safePath ''/home/agent'' ''/proj'' ''src/lib/a.ts'' = Valid (''/proj'' @ ''/'' @ ''src/lib/a.ts'')"
proof -
  have r: "''/proj'' = default_PROJECT_ROOT \<or> ''/proj'' = initialize ''/home/agent'' ''/proj''"
    by (simp add: initialize_def path_resolve_def)
  have out: "\<not> within_root ''/proj''
               (path_resolve ''/home/agent'' ''/proj'' ''docs/../../proj-evil/x'')"
    by (simp add: within_root_def path_resolve_def)
  have pl: "''/proj'' \<noteq> ''/'' \<and> plain_relative ''src/lib/a.ts''"
    by (simp add: plain_relative_def plain_segment_def)
  note t1 = safePath_confinement [OF r, of "''/home/agent''" "''docs/../../proj-evil/x''"]
  note t2 = safePath_confinement [OF r, of "''/home/agent''" "''src/lib/a.ts''"]
  from t1 [THEN conjunct1] out
  have e: "\<exists>err. safePath ''/home/agent'' ''/proj'' ''docs/../../proj-evil/x'' = Invalid err"
    by (rule mp)
  from t2 [THEN conjunct2, THEN conjunct2, THEN conjunct2, THEN conjunct2, THEN conjunct1] pl
  have v: "safePath ''/home/agent'' ''/proj'' ''src/lib/a.ts''
             = Valid (''/proj'' @ ''/'' @ ''src/lib/a.ts'')"
    by (rule mp)
  show ?thesis
    by (intro conjI) (rule r, rule out, rule e, rule pl [THEN conjunct1],
        rule pl [THEN conjunct2], rule v)
qed

section \<open>Properties of the command gate\<close>

lemma whitelist_keys:
  "fst ` set COMMAND_WHITELIST =
     {''node'', ''npm'', ''npx'', ''git'', ''ls'', ''cat'', ''head'', ''tail'', ''wc'',
      ''find'', ''grep'', ''echo'', ''pwd'', ''which'', ''env''}"
  by (simp add: COMMAND_WHITELIST_def)

lemma whitelist_truthy_iff:
  "cmd \<notin> set Object_prototype_keys \<Longrightarrow>
   whitelist_truthy cmd = (cmd \<in> fst ` set COMMAND_WHITELIST)"
  unfolding whitelist_keys
  by (simp add: whitelist_truthy_def COMMAND_WHITELIST_def)

lemma blocklist_not_whitelisted:
  "cmd \<in> set COMMAND_BLOCKLIST \<Longrightarrow> cmd \<notin> fst ` set COMMAND_WHITELIST"
  unfolding whitelist_keys
  by (auto simp: COMMAND_BLOCKLIST_def)

text \<open>
  C2 (as amended).  The gate compares the lower-cased, trimmed command.  For every command
  whose normal form is not a property name inherited from \<open>Object.prototype\<close>: the command
  is allowed exactly when its normal form is an own key of the allow-list; otherwise it is
  blocked with a reason, whether or not the deny-list names it.
\<close>

theorem isCommandAllowed_closed:
  assumes "trim (toLowerCase command) \<notin> set Object_prototype_keys"
  shows "(trim (toLowerCase command) \<in> fst ` set COMMAND_WHITELIST
            \<longrightarrow> isCommandAllowed command = Allowed)
       \<and> (trim (toLowerCase command) \<notin> fst ` set COMMAND_WHITELIST
            \<longrightarrow> (\<exists>reason. isCommandAllowed command = Blocked reason))"
  using assms blocklist_not_whitelisted [of "trim (toLowerCase command)"]
  by (auto simp: isCommandAllowed_def Let_def whitelist_truthy_iff)

lemma normal_form_python: "trim (toLowerCase '' Python '') = ''python''"
  by code_simp

theorem isCommandAllowed_closed_witness:
  "trim (toLowerCase '' Python '') \<notin> set Object_prototype_keys
   \<and> trim (toLowerCase '' Python '') \<notin> fst ` set COMMAND_WHITELIST
   \<and> trim (toLowerCase '' Python '') \<notin> set COMMAND_BLOCKLIST
   \<and> (\<exists>reason. isCommandAllowed '' Python '' = Blocked reason)"
proof -
  have p: "trim (toLowerCase '' Python '') \<notin> set Object_prototype_keys"
    by (simp add: normal_form_python Object_prototype_keys_def)
  have w: "trim (toLowerCase '' Python '') \<notin> fst ` set COMMAND_WHITELIST"
    by (simp add: normal_form_python whitelist_keys)
  have b: "trim (toLowerCase '' Python '') \<notin> set COMMAND_BLOCKLIST"
    by (simp add: normal_form_python COMMAND_BLOCKLIST_def)
  from isCommandAllowed_closed [OF p] w p b show ?thesis by blast
qed

text \<open>
  C2 (as stated) fails: the string \<open>NPM\<close> is not a key of the allow-list, and the gate
  allows it, because the lookup is made on the lower-cased, trimmed string.
\<close>

theorem isCommandAllowed_counterexample:
  "''NPM'' \<notin> fst ` set COMMAND_WHITELIST \<and> isCommandAllowed ''NPM'' = Allowed"
  by code_simp

text \<open>
  The inherited properties: \<open>constructor\<close> is in neither list, and the property read
  finds \<open>Object.prototype.constructor\<close>, so the gate allows it.
\<close>

lemma isCommandAllowed_constructor:
  "''constructor'' \<notin> fst ` set COMMAND_WHITELIST
   \<and> ''constructor'' \<notin> set COMMAND_BLOCKLIST
   \<and> isCommandAllowed ''constructor'' = Allowed"
  by code_simp

section \<open>Properties of \<open>git_push\<close>\<close>

lemma digit_char: "(d::nat) < 10 \<Longrightarrow> isDigit (''0123456789'' ! d)"
  unfolding isDigit_def by (rule nth_mem) simp

lemma show_nat_digits: "show_nat n \<noteq> [] \<and> list_all isDigit (show_nat n)"
proof (induction n rule: show_nat.induct)
  case (1 n)
  show ?case
  proof (cases "n < 10")
    case True
    then show ?thesis
      by (subst show_nat.simps, subst show_nat.simps) (simp add: digit_char)
  next
    case False
    with "1" have ih: "list_all isDigit (show_nat (n div 10))" by simp
    have "n mod 10 < 10" by simp
    then have "isDigit (''0123456789'' ! (n mod 10))" by (rule digit_char)
    with ih False show ?thesis
      by (subst show_nat.simps, subst show_nat.simps) simp
  qed
qed

lemma featureBranch_not_main: "featureBranch_of timestamp br \<noteq> ''main''"
  by (simp add: featureBranch_of_def)

lemma configure_remote_issued:
  "\<exists>new. issued (configure_remote env tok s) = issued s @ new \<and> filter is_push new = []"
  by (simp add: configure_remote_def execGit_def Let_def is_push_def split_beta)

lemma git_push_issued:
  "\<exists>new. issued (snd (git_push env tok ts br s)) = issued s @ new
     \<and> filter is_push new = [[''push'', ''-u'', ''origin'', featureBranch_of ts br]]"
proof -
  let ?fb = "featureBranch_of ts br"
  let ?s1 = "snd (execGit env [''checkout'', ''-b'', ?fb] s)"
  let ?s2 = "if exitCode (fst (execGit env [''checkout'', ''-b'', ?fb] s)) \<noteq> 0
               \<and> \<not> str_includes (stderr (fst (execGit env [''checkout'', ''-b'', ?fb] s))) ''already exists''
             then snd (execGit env [''checkout'', ?fb] ?s1) else ?s1"
  have "\<exists>n2. issued ?s2 = issued s @ n2 \<and> filter is_push n2 = []"
    by (simp add: execGit_def is_push_def)
  then obtain n2 where n2: "issued ?s2 = issued s @ n2" "filter is_push n2 = []"
    by blast
  obtain n3 where n3: "issued (configure_remote env tok ?s2) = issued ?s2 @ n3"
    "filter is_push n3 = []"
    using configure_remote_issued by blast
  have "issued (snd (git_push env tok ts br s))
        = issued (configure_remote env tok ?s2) @ [[''push'', ''-u'', ''origin'', ?fb]]"
    by (simp add: git_push_def execGit_def Let_def split_beta)
  with n2 n3 have "issued (snd (git_push env tok ts br s))
        = issued s @ (n2 @ n3 @ [[''push'', ''-u'', ''origin'', ?fb]])
      \<and> filter is_push (n2 @ n3 @ [[''push'', ''-u'', ''origin'', ?fb]])
          = [[''push'', ''-u'', ''origin'', ?fb]]"
    by (simp add: is_push_def)
  then show ?thesis by blast
qed

lemma git_push_result_branch:
  "success (fst (git_push env tok ts br s)) \<Longrightarrow>
   get_prop (data (fst (git_push env tok ts br s))) ''branch''
     = Some (JStr (featureBranch_of ts br))"
  unfolding git_push_def Let_def split_beta
  by (simp only: if_distrib [of fst] if_distrib [of success] if_distrib [of data] fst_conv
        split: if_splits) simp_all

text \<open>
  The digits written for a number denote that number, so two clock readings are written
  alike only when they are equal.
\<close>

lemma digit_value_digit: "(d::nat) < 10 \<Longrightarrow> digit_value (''0123456789'' ! d) = d"
proof -
  assume "d < 10"
  then have "d = 0 \<or> d = 1 \<or> d = 2 \<or> d = 3 \<or> d = 4 \<or> d = 5 \<or> d = 6 \<or> d = 7 \<or> d = 8 \<or> d = 9"
    by arith
  then show ?thesis by (elim disjE) (simp_all add: digit_value_def)
qed

lemma decimal_value_snoc:
  "decimal_value (s @ [c]) = 10 * decimal_value s + digit_value c"
  by (simp add: decimal_value_def)

lemma decimal_value_show_nat: "decimal_value (show_nat n) = n"
proof (induction n rule: show_nat.induct)
  case (1 n)
  show ?case
  proof (cases "n < 10")
    case True
    then have "show_nat n = [''0123456789'' ! n]"
      by (subst show_nat.simps) simp
    with True digit_value_digit [of n] show ?thesis
      by (simp add: decimal_value_def)
  next
    case False
    then have "show_nat n = show_nat (n div 10) @ [''0123456789'' ! (n mod 10)]"
      by (subst show_nat.simps) simp
    moreover have "decimal_value (show_nat (n div 10)) = n div 10"
      using "1" False by simp
    moreover have "digit_value (''0123456789'' ! (n mod 10)) = n mod 10"
      by (rule digit_value_digit) simp
    ultimately show ?thesis
      by (simp add: decimal_value_snoc)
  qed
qed

lemma featureBranch_main:
  "featureBranch_of ts ''main'' = ''agent/changes-'' @ show_int ts"
  by (simp add: featureBranch_of_def)

lemma featureBranch_reading:
  assumes "0 \<le> ts"
  shows "int (decimal_value (drop (length ''agent/changes-'') (featureBranch_of ts ''main''))) = ts"
  using assms by (simp add: featureBranch_main show_int_def decimal_value_show_nat)

lemma featureBranch_fresh:
  assumes "0 \<le> ts" and "0 \<le> ts'" and "ts \<noteq> ts'"
  shows "featureBranch_of ts ''main'' \<noteq> featureBranch_of ts' ''main''"
proof
  assume "featureBranch_of ts ''main'' = featureBranch_of ts' ''main''"
  then have "int (decimal_value (drop (length ''agent/changes-'') (featureBranch_of ts ''main'')))
           = int (decimal_value (drop (length ''agent/changes-'') (featureBranch_of ts' ''main'')))"
    by simp
  with featureBranch_reading [OF assms(1)] featureBranch_reading [OF assms(2)] assms(3)
  show False by simp
qed

text \<open>
  C3.  Whatever branch the caller names and whatever git answers, \<open>git_push\<close> issues exactly
  one push command, \<open>git push -u origin b\<close>, and \<open>b\<close> is never \<open>main\<close>; a successful
  result returns \<open>b\<close> as its \<open>branch\<close>.  When the caller names \<open>main\<close>, \<open>b\<close> is generated
  from the clock: it is \<open>agent/changes-\<close> followed by the clock reading in decimal digits
  (the clock does not read before 1970), the digits denote that reading, and two different
  readings give two different names.  Any other name is pushed as it is.
\<close>

theorem git_push_never_targets_main:
  "featureBranch_of ts br \<noteq> ''main''
   \<and> (\<exists>new. issued (snd (git_push env tok ts br s)) = issued s @ new
         \<and> filter is_push new = [[''push'', ''-u'', ''origin'', featureBranch_of ts br]])
   \<and> (success (fst (git_push env tok ts br s))
        \<longrightarrow> get_prop (data (fst (git_push env tok ts br s))) ''branch''
              = Some (JStr (featureBranch_of ts br)))
   \<and> (br = ''main'' \<and> 0 \<le> ts \<longrightarrow> matches_agent_changes (featureBranch_of ts br))
   \<and> (br \<noteq> ''main'' \<longrightarrow> featureBranch_of ts br = br)
   \<and> (br = ''main'' \<longrightarrow> featureBranch_of ts br = ''agent/changes-'' @ show_int ts)
   \<and> (br = ''main'' \<and> 0 \<le> ts
        \<longrightarrow> int (decimal_value (drop (length ''agent/changes-'') (featureBranch_of ts br))) = ts)
   \<and> (0 \<le> ts \<and> 0 \<le> ts' \<and> ts \<noteq> ts'
        \<longrightarrow> featureBranch_of ts ''main'' \<noteq> featureBranch_of ts' ''main''
            \<and> (success (fst (git_push env tok ts ''main'' s))
                 \<and> success (fst (git_push env' tok' ts' ''main'' s'))
                 \<longrightarrow> get_prop (data (fst (git_push env tok ts ''main'' s))) ''branch''
                      \<noteq> get_prop (data (fst (git_push env' tok' ts' ''main'' s'))) ''branch''))"
proof -
  have c4: "matches_agent_changes (featureBranch_of ts br)" if "br = ''main''" "0 \<le> ts"
    using that show_nat_digits [of "nat ts"]
    by (simp add: matches_agent_changes_def featureBranch_of_def show_int_def)
  have c5: "featureBranch_of ts br = br" if "br \<noteq> ''main''"
    using that by (simp add: featureBranch_of_def)
  have c6: "featureBranch_of ts br = ''agent/changes-'' @ show_int ts" if "br = ''main''"
    using that by (simp add: featureBranch_main)
  have c7: "int (decimal_value (drop (length ''agent/changes-'') (featureBranch_of ts br))) = ts"
    if "br = ''main''" "0 \<le> ts"
    using that featureBranch_reading [of ts] by simp
  have c8: "featureBranch_of ts ''main'' \<noteq> featureBranch_of ts' ''main''
            \<and> (success (fst (git_push env tok ts ''main'' s))
                 \<and> success (fst (git_push env' tok' ts' ''main'' s'))
                 \<longrightarrow> get_prop (data (fst (git_push env tok ts ''main'' s))) ''branch''
                      \<noteq> get_prop (data (fst (git_push env' tok' ts' ''main'' s'))) ''branch'')"
    if "0 \<le> ts" "0 \<le> ts'" "ts \<noteq> ts'"
    using featureBranch_fresh [OF that]
      git_push_result_branch [of env tok ts "''main''" s]
      git_push_result_branch [of env' tok' ts' "''main''" s']
    by auto
  show ?thesis
    apply (intro conjI impI)
    subgoal by (rule featureBranch_not_main)
    subgoal by (rule git_push_issued)
    subgoal by (rule git_push_result_branch)
    subgoal using c4 by blast
    subgoal using c5 by blast
    subgoal using c6 by blast
    subgoal using c7 by blast
    subgoal using c8 by blast
    subgoal using c8 by blast
    done
qed

lemma featureBranch_example:
  "featureBranch_of 1700000000000 ''main'' = ''agent/changes-1700000000000''
   \<and> featureBranch_of 1700000000001 ''main'' = ''agent/changes-1700000000001''"
  by (simp add: featureBranch_of_def show_int_def show_nat.simps)

theorem git_push_never_targets_main_witness:
  "success (fst (git_push git_quiet None 1700000000000 ''main'' git_state0))
   \<and> success (fst (git_push git_quiet None 1700000000001 ''main'' git_state0))
   \<and> (''main'' = ''main'' \<and> (0::int) \<le> 1700000000000)
   \<and> ((0::int) \<le> 1700000000000 \<and> (0::int) \<le> 1700000000001
        \<and> (1700000000000::int) \<noteq> 1700000000001)
   \<and> get_prop (data (fst (git_push git_quiet None 1700000000000 ''main'' git_state0))) ''branch''
       = Some (JStr ''agent/changes-1700000000000'')
   \<and> get_prop (data (fst (git_push git_quiet None 1700000000001 ''main'' git_state0))) ''branch''
       = Some (JStr ''agent/changes-1700000000001'')
   \<and> get_prop (data (fst (git_push git_quiet None 1700000000000 ''main'' git_state0))) ''branch''
       \<noteq> get_prop (data (fst (git_push git_quiet None 1700000000001 ''main'' git_state0)))
            ''branch''
   \<and> matches_agent_changes ''agent/changes-1700000000000''
   \<and> int (decimal_value (drop (length ''agent/changes-'') ''agent/changes-1700000000000''))
       = 1700000000000
   \<and> ''fix/typo'' \<noteq> ''main''
   \<and> featureBranch_of 1700000000000 ''fix/typo'' = ''fix/typo''"
proof -
  have ok: "success (fst (git_push git_quiet None 1700000000000 ''main'' git_state0))
            \<and> success (fst (git_push git_quiet None 1700000000001 ''main'' git_state0))"
    by (simp add: git_push_def git_quiet_def execGit_def configure_remote_def Let_def)
  have h: "''main'' = ''main'' \<and> (0::int) \<le> 1700000000000" by simp
  have h2: "(0::int) \<le> 1700000000000 \<and> (0::int) \<le> 1700000000001
        \<and> (1700000000000::int) \<noteq> 1700000000001" by simp
  have n: "''fix/typo'' \<noteq> ''main''" by simp
  note a = git_push_never_targets_main
         [of 1700000000000 "''main''" git_quiet None git_state0 1700000000001
            git_quiet None git_state0]
  note b = git_push_never_targets_main
         [of 1700000000001 "''main''" git_quiet None git_state0 1700000000000
            git_quiet None git_state0]
  note c = git_push_never_targets_main
         [of 1700000000000 "''fix/typo''" git_quiet None git_state0 1700000000001
            git_quiet None git_state0]
  note a3 = a [THEN conjunct2, THEN conjunct2, THEN conjunct1]
  note b3 = b [THEN conjunct2, THEN conjunct2, THEN conjunct1]
  note a4 = a [THEN conjunct2, THEN conjunct2, THEN conjunct2, THEN conjunct1]
  note c5 = c [THEN conjunct2, THEN conjunct2, THEN conjunct2, THEN conjunct2, THEN conjunct1]
  note a7 = a [THEN conjunct2, THEN conjunct2, THEN conjunct2, THEN conjunct2, THEN conjunct2,
               THEN conjunct2, THEN conjunct1]
  note a8 = a [THEN conjunct2, THEN conjunct2, THEN conjunct2, THEN conjunct2, THEN conjunct2,
               THEN conjunct2, THEN conjunct2]
  have r1: "get_prop (data (fst (git_push git_quiet None 1700000000000 ''main'' git_state0)))
              ''branch'' = Some (JStr ''agent/changes-1700000000000'')"
    using a3 ok by (simp add: featureBranch_example)
  have r2: "get_prop (data (fst (git_push git_quiet None 1700000000001 ''main'' git_state0)))
              ''branch'' = Some (JStr ''agent/changes-1700000000001'')"
    using b3 ok by (simp add: featureBranch_example)
  have r3: "get_prop (data (fst (git_push git_quiet None 1700000000000 ''main'' git_state0)))
              ''branch''
       \<noteq> get_prop (data (fst (git_push git_quiet None 1700000000001 ''main'' git_state0)))
            ''branch''"
    using a8 ok by simp
  have r4: "matches_agent_changes ''agent/changes-1700000000000''"
    using a4 by (simp add: featureBranch_example)
  have r5: "int (decimal_value (drop (length ''agent/changes-'') ''agent/changes-1700000000000''))
       = 1700000000000"
    using a7 by (simp add: featureBranch_example)
  have r6: "featureBranch_of 1700000000000 ''fix/typo'' = ''fix/typo''"
    using c5 by simp
  from ok h h2 n r1 r2 r3 r4 r5 r6 show ?thesis
    by (intro conjI) (simp_all only: simp_thms)
qed
section \<open>Properties of the loop\<close>

lemma loop_pass_break_iteration:
  assumes "loop_pass world llm JSON_parse st messages = Break e st' messages' d res"
  shows "count (iteration st') = count (iteration st) + 1
       \<and> max_iterations (iteration st') = max_iterations (iteration st)"
proof (cases rule: loop_pass_cases [of world llm JSON_parse st messages])
  case (threw x st2 messages2)
  with assms show ?thesis by (auto simp: incrementIteration_def)
qed (use assms in \<open>auto simp: no_tool_def incrementIteration_def addIterationError_def\<close>)

lemma loop_pass_continue_max:
  assumes "loop_pass world llm JSON_parse st messages = Continue st' messages'"
  shows "max_iterations (iteration st') = max_iterations (iteration st)"
proof (cases rule: loop_pass_cases [of world llm JSON_parse st messages])
  case (plan action planSteps)
  with assms show ?thesis by (auto simp: setPlan_def incrementIteration_def)
next
  case (tool_returned action toolName toolResult st2 st3 messages3)
  with assms show ?thesis by (auto simp: incrementIteration_def)
qed (use assms in \<open>simp_all add: no_tool_def\<close>)

text \<open>
  The number of passes of the loop, from any start: at most what is left of the budget; and
  the counter has risen by exactly the number of passes made.
\<close>

lemma agent_loop_passes:
  "n \<le> passes (agent_loop world llm JSON_parse maxSteps st messages d n)
   \<and> passes (agent_loop world llm JSON_parse maxSteps st messages d n)
       \<le> n + (maxSteps - count (iteration st))
   \<and> count (iteration (final_state (agent_loop world llm JSON_parse maxSteps st messages d n)))
       = count (iteration st)
         + (passes (agent_loop world llm JSON_parse maxSteps st messages d n) - n)
   \<and> max_iterations
        (iteration (final_state (agent_loop world llm JSON_parse maxSteps st messages d n)))
       = max_iterations (iteration st)"
proof (induction world llm JSON_parse maxSteps st messages d n rule: agent_loop.induct)
  case (1 world llm JSON_parse maxSteps st messages d n)
  show ?case
  proof (cases "count (iteration st) < maxSteps \<and> \<not> d")
    case False
    then have eq: "agent_loop world llm JSON_parse maxSteps st messages d n
        = \<lparr>final_state = st, final_messages = messages, done_flag = d,
           finalResult = None, exit_by = ConditionFalse, passes = n\<rparr>"
      by (subst agent_loop.simps) auto
    show ?thesis unfolding eq by simp
  next
    case True
    note go = this
    show ?thesis
    proof (cases "loop_pass world llm JSON_parse st messages")
      case (Continue st' messages')
      with go have eq: "agent_loop world llm JSON_parse maxSteps st messages d n
          = agent_loop world llm JSON_parse maxSteps st' messages' d (n + 1)"
        by (subst agent_loop.simps) simp
      from "1.IH" [OF go Continue] loop_pass_count [OF Continue]
        loop_pass_continue_max [OF Continue] go
      show ?thesis unfolding eq by (simp, arith)
    next
      case (Break e st' messages' d' res)
      with go have eq: "agent_loop world llm JSON_parse maxSteps st messages d n
          = \<lparr>final_state = st', final_messages = messages', done_flag = d',
             finalResult = res, exit_by = e, passes = n + 1\<rparr>"
        by (subst agent_loop.simps) simp
      from loop_pass_break_iteration [OF Break] go
      show ?thesis unfolding eq by (simp, arith)
    qed
  qed
qed

text \<open>
  C4.  For any goal, any LLM and any world of tools, the loop of \<open>main\<close> (a total function:
  its recursion is well-founded on the budget left) makes at most \<open>MAX_STEPS\<close> passes,
  hence at most \<open>MAX_STEPS + 1\<close>; the iteration counter ends equal to the number of passes
  made, one increment per pass; and the configured maximum of the state is \<open>MAX_STEPS\<close>.
\<close>

theorem main_loop_terminates:
  "passes (main_loop world llm JSON_parse g) \<le> MAX_STEPS + 1
   \<and> passes (main_loop world llm JSON_parse g) \<le> MAX_STEPS
   \<and> count (iteration (final_state (main_loop world llm JSON_parse g)))
       = passes (main_loop world llm JSON_parse g)
   \<and> max_iterations (iteration (final_state (main_loop world llm JSON_parse g))) = MAX_STEPS"
  using agent_loop_passes [of 0 world llm JSON_parse MAX_STEPS
          "setGoal g (update_max MAX_STEPS initialState)" "[formatGoal g]" False]
  by (simp add: main_loop_def setGoal_def update_max_def initialState_def)

section \<open>The exits of the loop\<close>

text \<open>
  What \<open>callLLM\<close> returns on success is one of the three objects that \<open>tryModel\<close> builds,
  so the \<open>break\<close> of \<open>main\<close> on a reply without \<open>tool\<close> is never taken.
\<close>

lemma callLLM_success_kind:
  assumes "callLLM JSON_parse reply = Success action"
  shows "(\<exists>p. action = done_action p)
       \<or> (\<exists>v. action = JObj [(''plan'', v)] \<and> truthy v)
       \<or> (\<exists>t a. action = JObj [(''tool'', t), (''args'', a)] \<and> truthy t)"
proof (cases reply)
  case (CallFailed e)
  with assms show ?thesis by (simp add: callLLM_def)
next
  case (Body c fr)
  with assms have ok: "decode_body JSON_parse c fr = Return (Success action)"
    by (simp add: callLLM_def split: js.splits)
  then obtain p where "decode_parsed (the c) p = Return (Success action)"
    by (auto simp: decode_body_def decode_content_def split: if_splits option.splits)
  then show ?thesis
    by (cases "get_prop (Some p) ''plan''"; cases "get_prop (Some p) ''tool''")
       (auto simp: decode_parsed_def then_js_def split: if_splits js.splits)
qed

lemma loop_pass_no_tool_unreachable:
  "loop_pass world llm JSON_parse st messages \<noteq> Break NoToolSpecified st' messages' d res"
proof (cases rule: loop_pass_cases [of world llm JSON_parse st messages])
  case (no_tool action)
  from callLLM_success_kind [OF no_tool(1)] no_tool(2,3,4) show ?thesis
    by (auto simp: done_action_keys)
qed simp_all

lemma agent_loop_no_tool_unreachable:
  "exit_by (agent_loop world llm JSON_parse maxSteps st messages d n) \<noteq> NoToolSpecified"
proof (induction world llm JSON_parse maxSteps st messages d n rule: agent_loop.induct)
  case (1 world llm JSON_parse maxSteps st messages d n)
  show ?case
  proof (cases "count (iteration st) < maxSteps \<and> \<not> d")
    case False
    then have eq: "agent_loop world llm JSON_parse maxSteps st messages d n
        = \<lparr>final_state = st, final_messages = messages, done_flag = d,
           finalResult = None, exit_by = ConditionFalse, passes = n\<rparr>"
      by (subst agent_loop.simps) auto
    show ?thesis unfolding eq by simp
  next
    case True
    note go = this
    show ?thesis
    proof (cases "loop_pass world llm JSON_parse st messages")
      case (Continue st' messages')
      with go have eq: "agent_loop world llm JSON_parse maxSteps st messages d n
          = agent_loop world llm JSON_parse maxSteps st' messages' d (n + 1)"
        by (subst agent_loop.simps) simp
      from "1.IH" [OF go Continue] show ?thesis unfolding eq .
    next
      case (Break e st' messages' d' res)
      with go have eq: "agent_loop world llm JSON_parse maxSteps st messages d n
          = \<lparr>final_state = st', final_messages = messages', done_flag = d',
             finalResult = res, exit_by = e, passes = n + 1\<rparr>"
        by (subst agent_loop.simps) simp
      from Break loop_pass_no_tool_unreachable [of world llm JSON_parse st messages st' messages' d' res]
      have "e \<noteq> NoToolSpecified" by auto
      then show ?thesis unfolding eq by simp
    qed
  qed
qed

text \<open>
  A tool result that is classified as a failure does not end the pass: where the result can
  be formatted for the history, the pass continues, with the repair counter raised by one,
  the error appended to the errors of the state, and the action and the formatted result
  appended to the history.
\<close>

lemma tool_failure_continues:
  assumes "isError_result toolResult"
    and "js_to_string toolName = Return name"
    and "formatToolResult toolName toolResult = Return formatted"
    and "list_all convertible (changed_files st)"
  shows "\<exists>st' e summary.
           after_tool action toolName step toolResult st messages
             = Continue st' (messages @ [assistant_message action, formatted] @ summary)
           \<and> repairs (iteration st') = repairs (iteration st) + 1
           \<and> errors (iteration st') = errors (iteration st) @ [e]
           \<and> count (iteration st') = count (iteration st)"
  using assms
  by (simp add: after_tool_def Let_def addIterationError_def then_js_def formatStateSummary_def
        js_join_def)

lemma returned_tool_result_continues:
  assumes "callLLM JSON_parse (llm (count (iteration st) + 1) messages)
             = Success (JObj [(''tool'', t), (''args'', a)])"
    and "truthy t"
    and "executeToolWithArgs world (count (iteration st) + 1) t (js_or (Some a) (Some (JObj [])))
           (incrementIteration st) = (Return toolResult, st1)"
    and "js_to_string t = Return name"
    and "formatToolResult t toolResult = Return formatted"
    and "list_all convertible (changed_files st1)"
  shows "\<exists>st' messages'. loop_pass world llm JSON_parse st messages = Continue st' messages'"
  using assms
  by (simp add: loop_pass_def Let_def incrementIteration_def after_tool_def then_js_def
        formatStateSummary_def js_join_def addIterationError_def)

text \<open>
  C5 fails on the code.  The reply \<open>{"plan": "Read the file, then edit it"}\<close> is decoded as a
  plan action, since \<open>plan\<close> is truthy; \<open>main\<close> then calls \<open>action.plan.forEach\<close> on a string,
  which throws.  Nothing in \<open>main\<close> catches it: the loop ends in its first pass, without a
  \<open>done\<close> action, with budget left and after a successful LLM call.
\<close>

theorem main_loop_uncaught_exception:
  "exit_by (main_loop world (llm_says (JSON_stringify plan_as_text)) (parse_as plan_as_text) g)
     = UncaughtException ''TypeError: action.plan.forEach is not a function''
   \<and> passes (main_loop world (llm_says (JSON_stringify plan_as_text)) (parse_as plan_as_text) g) = 1
   \<and> \<not> done_flag (main_loop world (llm_says (JSON_stringify plan_as_text)) (parse_as plan_as_text) g)
   \<and> callLLM (parse_as plan_as_text) (llm_says (JSON_stringify plan_as_text) 1 [formatGoal g])
       = Success plan_as_text"
proof -
  have budget: "count (iteration (setGoal g (update_max MAX_STEPS initialState))) < MAX_STEPS"
    by (simp add: setGoal_def update_max_def initialState_def MAX_STEPS_def)
  have c: "JSON_stringify plan_as_text \<noteq> []"
    by (simp add: JSON_stringify_def plan_as_text_def)
  have l: "callLLM (parse_as plan_as_text) (llm_says (JSON_stringify plan_as_text) k ms)
       = Success plan_as_text" for k ms
    using c
    by (simp add: callLLM_def llm_says_def decode_body_def decode_content_def parse_as_def
        decode_parsed_def plan_as_text_def then_js_def js_to_string_def)
  have p: "loop_pass world (llm_says (JSON_stringify plan_as_text)) (parse_as plan_as_text)
             (setGoal g (update_max MAX_STEPS initialState)) [formatGoal g]
           = Break (UncaughtException ''TypeError: action.plan.forEach is not a function'')
               (incrementIteration (setGoal g (update_max MAX_STEPS initialState)))
               [formatGoal g] False None"
    unfolding loop_pass_def Let_def l
    by (simp add: plan_as_text_def plan_action_def uncaught_def not_a_function_def
        js_to_string_def)
  have "main_loop world (llm_says (JSON_stringify plan_as_text)) (parse_as plan_as_text) g
        = \<lparr>final_state = incrementIteration (setGoal g (update_max MAX_STEPS initialState)),
           final_messages = [formatGoal g], done_flag = False, finalResult = None,
           exit_by = UncaughtException ''TypeError: action.plan.forEach is not a function'',
           passes = 1\<rparr>"
    unfolding main_loop_def
    by (subst agent_loop.simps) (simp add: p budget)
  with l show ?thesis by simp
qed

text \<open>
  A tool that throws ends the loop as well: \<open>write_file\<close> without \<open>content\<close> throws in its
  first line, outside its \<open>try\<close> block, after the path has been recorded as a changed file.
\<close>

lemma main_loop_tool_exception:
  "exit_by (main_loop world (llm_says (JSON_stringify write_without_content))
              (parse_as write_without_content) g)
     = UncaughtException (''TypeError: Cannot read properties of undefined (reading ''
                          @ [CHR 0x27] @ ''length'' @ [CHR 0x27] @ '')'')
   \<and> passes (main_loop world (llm_says (JSON_stringify write_without_content))
              (parse_as write_without_content) g) = 1
   \<and> changed_files (final_state (main_loop world (llm_says (JSON_stringify write_without_content))
              (parse_as write_without_content) g)) = [JStr ''a.txt'']"
proof -
  have budget: "count (iteration (setGoal g (update_max MAX_STEPS initialState))) < MAX_STEPS"
    by (simp add: setGoal_def update_max_def initialState_def MAX_STEPS_def)
  have c: "JSON_stringify write_without_content \<noteq> []"
    by (simp add: JSON_stringify_def write_without_content_def)
  have l: "callLLM (parse_as write_without_content)
             (llm_says (JSON_stringify write_without_content) k ms)
       = Success write_without_content" for k ms
    using c
    by (simp add: callLLM_def llm_says_def decode_body_def decode_content_def parse_as_def
        decode_parsed_def write_without_content_def then_js_def js_to_string_def)
  have p: "loop_pass world (llm_says (JSON_stringify write_without_content))
             (parse_as write_without_content)
             (setGoal g (update_max MAX_STEPS initialState)) [formatGoal g]
           = Break (UncaughtException
                (''TypeError: Cannot read properties of undefined (reading ''
                 @ [CHR 0x27] @ ''length'' @ [CHR 0x27] @ '')''))
               (addChangedFile (JStr ''a.txt'')
                  (incrementIteration (setGoal g (update_max MAX_STEPS initialState))))
               [formatGoal g] False None"
    unfolding loop_pass_def Let_def l
    by (simp add: write_without_content_def executeToolWithArgs_def allTools_truthy_def
        allTools_keys_def switch_tool_def js_or_def Let_def js_to_string_def then_js_def
        log_write_file_def cannot_read_def uncaught_def)
  have "main_loop world (llm_says (JSON_stringify write_without_content))
          (parse_as write_without_content) g
        = \<lparr>final_state = addChangedFile (JStr ''a.txt'')
             (incrementIteration (setGoal g (update_max MAX_STEPS initialState))),
           final_messages = [formatGoal g], done_flag = False, finalResult = None,
           exit_by = UncaughtException
             (''TypeError: Cannot read properties of undefined (reading ''
              @ [CHR 0x27] @ ''length'' @ [CHR 0x27] @ '')''),
           passes = 1\<rparr>"
    unfolding main_loop_def
    by (subst agent_loop.simps) (simp add: p budget)
  then show ?thesis
    by (simp add: addChangedFile_def incrementIteration_def setGoal_def update_max_def
        initialState_def)
qed

text \<open>
  What the exits mean, for a loop started with \<open>done\<close> false: the condition fails only when
  the budget is used up, and the run is marked done exactly when it ended by a done action.
\<close>

lemma loop_pass_done_flag:
  assumes "loop_pass world llm JSON_parse st messages = Break e st' messages' d res"
  shows "d = (e = DoneAction) \<and> e \<noteq> ConditionFalse"
  by (cases rule: loop_pass_cases [of world llm JSON_parse st messages])
     (use assms in \<open>auto simp: no_tool_def\<close>)

lemma agent_loop_exit_meaning:
  "(exit_by (agent_loop world llm JSON_parse maxSteps st messages False n) = ConditionFalse
      \<longrightarrow> maxSteps \<le> count (iteration
             (final_state (agent_loop world llm JSON_parse maxSteps st messages False n))))
   \<and> (done_flag (agent_loop world llm JSON_parse maxSteps st messages False n)
        = (exit_by (agent_loop world llm JSON_parse maxSteps st messages False n) = DoneAction))"
proof (induction world llm JSON_parse maxSteps st messages "False" n rule: agent_loop.induct)
  case (1 world llm JSON_parse maxSteps st messages n)
  show ?case
  proof (cases "count (iteration st) < maxSteps")
    case False
    then have eq: "agent_loop world llm JSON_parse maxSteps st messages False n
        = \<lparr>final_state = st, final_messages = messages, done_flag = False,
           finalResult = None, exit_by = ConditionFalse, passes = n\<rparr>"
      by (subst agent_loop.simps) auto
    from False show ?thesis unfolding eq by simp
  next
    case True
    then have go: "count (iteration st) < maxSteps \<and> \<not> False" by simp
    show ?thesis
    proof (cases "loop_pass world llm JSON_parse st messages")
      case (Continue st' messages')
      with go have eq: "agent_loop world llm JSON_parse maxSteps st messages False n
          = agent_loop world llm JSON_parse maxSteps st' messages' False (n + 1)"
        by (subst agent_loop.simps) simp
      from "1.hyps" [OF go Continue] show ?thesis unfolding eq .
    next
      case (Break e st' messages' d' res)
      with go have eq: "agent_loop world llm JSON_parse maxSteps st messages False n
          = \<lparr>final_state = st', final_messages = messages', done_flag = d',
             finalResult = res, exit_by = e, passes = n + 1\<rparr>"
        by (subst agent_loop.simps) simp
      from loop_pass_done_flag [OF Break] loop_pass_no_tool_unreachable
             [of world llm JSON_parse st messages st' messages' d' res] Break
      show ?thesis unfolding eq by (cases e) auto
    qed
  qed
qed

text \<open>
  A run in which every pass continues uses the whole budget and ends by the loop condition.
\<close>

lemma agent_loop_all_continue:
  assumes "\<And>st messages. good st \<Longrightarrow> \<exists>st' messages'.
             loop_pass world llm JSON_parse st messages = Continue st' messages' \<and> good st'"
    and "good st"
  shows "exit_by (agent_loop world llm JSON_parse maxSteps st messages False n) = ConditionFalse
       \<and> passes (agent_loop world llm JSON_parse maxSteps st messages False n)
           = n + (maxSteps - count (iteration st))"
  using assms
proof (induction world llm JSON_parse maxSteps st messages "False" n rule: agent_loop.induct)
  case (1 world llm JSON_parse maxSteps st messages n)
  show ?case
  proof (cases "count (iteration st) < maxSteps")
    case False
    then have eq: "agent_loop world llm JSON_parse maxSteps st messages False n
        = \<lparr>final_state = st, final_messages = messages, done_flag = False,
           finalResult = None, exit_by = ConditionFalse, passes = n\<rparr>"
      by (subst agent_loop.simps) auto
    from False show ?thesis unfolding eq by simp
  next
    case True
    then have go: "count (iteration st) < maxSteps \<and> \<not> False" by simp
    from "1.prems" obtain st' messages' where
      c: "loop_pass world llm JSON_parse st messages = Continue st' messages'"
      and i: "good st'"
      by blast
    with go have eq: "agent_loop world llm JSON_parse maxSteps st messages False n
        = agent_loop world llm JSON_parse maxSteps st' messages' False (n + 1)"
      by (subst agent_loop.simps) simp
    from "1.hyps" [OF go c "1.prems"(1) i] loop_pass_count [OF c] True
    show ?thesis unfolding eq by simp
  qed
qed

text \<open>
  A build that fails in every pass never ends the loop: the LLM asks for \<open>run_build\<close> each
  time, the tool returns exit code 1 each time, and the loop runs until the budget is used
  up, \<open>MAX_STEPS\<close> passes.
\<close>

lemma failing_build_runs_to_budget:
  "exit_by (main_loop tools_fail (llm_says (JSON_stringify build_call)) (parse_as build_call) g)
     = ConditionFalse
   \<and> passes (main_loop tools_fail (llm_says (JSON_stringify build_call)) (parse_as build_call) g)
     = MAX_STEPS
   \<and> \<not> done_flag (main_loop tools_fail (llm_says (JSON_stringify build_call))
                       (parse_as build_call) g)"
proof -
  have c: "JSON_stringify build_call \<noteq> []"
    by (simp add: JSON_stringify_def build_call_def)
  have l: "callLLM (parse_as build_call) (llm_says (JSON_stringify build_call) k ms)
       = Success build_call" for k ms
    using c
    by (simp add: callLLM_def llm_says_def decode_body_def decode_content_def parse_as_def
        decode_parsed_def build_call_def then_js_def js_to_string_def)
  have ex: "\<exists>r st1. executeToolWithArgs tools_fail k (JStr ''run_build'') a st = (Return r, st1)
              \<and> r = \<lparr>success = False,
                     data = Some (JObj [(''exitCode'', JNum 1), (''stdout'', JStr []),
                                        (''stderr'', JStr ''error TS2304: Cannot find name'')]),
                     error = None\<rparr>
              \<and> changed_files st1 = changed_files st"
    for k a st
    by (simp add: executeToolWithArgs_def allTools_truthy_def allTools_keys_def switch_tool_def
        tools_fail_def Let_def js_to_string_def record_result_def setBuildStatus_def)
  have f: "\<exists>m. formatToolResult (JStr ''run_build'')
                  \<lparr>success = False,
                   data = Some (JObj [(''exitCode'', JNum 1), (''stdout'', JStr []),
                                      (''stderr'', JStr ''error TS2304: Cannot find name'')]),
                   error = None\<rparr> = Return m"
    by (simp add: formatToolResult_def isError_result_def exitCode_of_def then_js_def
        js_to_string_def js_or_def)
  have p: "\<exists>st' messages'. loop_pass tools_fail (llm_says (JSON_stringify build_call))
             (parse_as build_call) st messages = Continue st' messages'
           \<and> changed_files st' = []" if "changed_files st = []" for st messages
  proof -
    from ex obtain r st1 where
      e: "executeToolWithArgs tools_fail (count (iteration (incrementIteration st)))
            (JStr ''run_build'') (js_or (Some (JObj [])) (Some (JObj []))) (incrementIteration st)
          = (Return r, st1)"
      and r: "r = \<lparr>success = False,
                     data = Some (JObj [(''exitCode'', JNum 1), (''stdout'', JStr []),
                                        (''stderr'', JStr ''error TS2304: Cannot find name'')]),
                     error = None\<rparr>"
      and ch: "changed_files st1 = changed_files (incrementIteration st)"
      by blast
    from f r obtain m where m: "formatToolResult (JStr ''run_build'') r = Return m" by blast
    from ch that have ch1: "changed_files st1 = []" by (simp add: incrementIteration_def)
    show ?thesis
      unfolding loop_pass_def Let_def l
      using e m ch1
      by (simp add: build_call_def after_tool_def Let_def then_js_def js_to_string_def
          formatStateSummary_def js_join_def addIterationError_def r isError_result_def)
  qed
  have i: "changed_files (setGoal g (update_max MAX_STEPS initialState)) = []"
    by (simp add: setGoal_def update_max_def initialState_def)
  from agent_loop_all_continue [of "\<lambda>st. changed_files st = []" tools_fail
         "llm_says (JSON_stringify build_call)"
         "parse_as build_call" "setGoal g (update_max MAX_STEPS initialState)"
         MAX_STEPS "[formatGoal g]" 0, OF p i]
       agent_loop_exit_meaning [of tools_fail "llm_says (JSON_stringify build_call)"
         "parse_as build_call" MAX_STEPS "setGoal g (update_max MAX_STEPS initialState)"
         "[formatGoal g]" 0]
  show ?thesis
    by (simp add: main_loop_def setGoal_def update_max_def initialState_def)
qed
section \<open>Properties of the history formatting\<close>

lemma quote_char_nonempty: "1 \<le> length (quote_char c)"
  by (simp add: quote_char_def Let_def)

lemma length_concat_quote: "length s \<le> length (concat (map quote_char s))"
proof (induction s)
  case Nil
  then show ?case by simp
next
  case (Cons c s)
  with quote_char_nonempty [of c] show ?case by simp
qed

lemma length_quote: "length s + 2 \<le> length (quote s)"
  using length_concat_quote [of s] by (simp add: quote_def)

lemma read_file_readme:
  "read_file cwd default_PROJECT_ROOT (fs_readme text) ''README.md''
     = \<lparr>success = True,
        data = Some (JObj
          [(''path'', JStr ''/vercel/sandbox/README.md''),
           (''relativePath'', JStr ''README.md''),
           (''content'', JStr text),
           (''size'', JNum (int (length text)))]),
        error = None\<rparr>"
  by (simp add: read_file_def safePath_def suspiciousPatterns_def startsWith_def endsWith_def
      sep_def path_resolve_def default_PROJECT_ROOT_def fs_readme_def relative_within_def
      Let_def suffix_to_prefix)

text \<open>
  C6 fails on the code.  \<open>read_file\<close> returns the whole content of the file, and
  \<open>formatToolResult\<close> puts the whole result into the message: for a file of any length the
  message is longer than the file, so no bound on the message exists.
\<close>

theorem formatToolResult_unbounded:
  "\<exists>m. formatToolResult (JStr ''read_file'')
          (read_file cwd default_PROJECT_ROOT (fs_readme text) ''README.md'') = Return m
       \<and> length text < length (content m)"
proof -
  have "length text + 2 \<le> length (quote text)"
    by (rule length_quote)
  then show ?thesis
    by (simp add: read_file_readme formatToolResult_def isError_result_def exitCode_of_def
        JSON_stringify_pretty_def then_js_def js_to_string_def)
qed

text \<open>The same holds for the error message of a failed tool, and for a command's output.\<close>

lemma formatToolResult_error_unbounded:
  "\<exists>m. formatToolResult toolName \<lparr>success = False, data = None, error = Some e\<rparr> = Return m
       \<and> length e < length (content m)"
  by (simp add: formatToolResult_def isError_result_def exitCode_of_def)

lemma formatToolResult_stdout_unbounded:
  assumes "out \<noteq> []"
  shows "\<exists>m. formatToolResult (JStr ''run_command'')
         \<lparr>success = False,
          data = Some (JObj [(''command'', JStr ''cat big.txt''), (''exitCode'', JNum 1),
                             (''stdout'', JStr out), (''stderr'', JStr [])]),
          error = None\<rparr> = Return m
       \<and> length out < length (content m)"
  using assms
  by (simp add: formatToolResult_def isError_result_def exitCode_of_def js_or_def then_js_def
      js_to_string_def)

text \<open>
  A result whose data holds an object with a property \<open>toString\<close> cannot be formatted at
  all: the template literal throws.
\<close>

lemma formatToolResult_throws:
  "formatToolResult (JStr ''run_command'')
     \<lparr>success = False,
      data = Some (JObj [(''exitCode'', JNum 1),
                         (''stdout'', JObj [(''toString'', JNum 1)])]),
      error = None\<rparr> = Throw cannot_convert"
  by (simp add: formatToolResult_def isError_result_def exitCode_of_def js_or_def then_js_def
      js_to_string_def)
section \<open>Properties of the decoder\<close>

lemma callLLM_body:
  assumes "c \<noteq> []" and "finishReason \<noteq> Some ''length''"
  shows "callLLM JSON_parse (Body (Some c) finishReason)
           = (case decode_content JSON_parse c of
                Return r \<Rightarrow> r
              | Throw e \<Rightarrow> Failure (message_of e))"
  using assms by (simp add: callLLM_def decode_body_def)

lemma decode_parsed_kinds:
  assumes "decode_parsed c p = Return (Success action)"
  shows "action = done_action p
       \<or> (\<exists>v. action = JObj [(''plan'', v)])
       \<or> (\<exists>t a. action = JObj [(''tool'', t), (''args'', a)])"
  using assms
  by (auto simp: decode_parsed_def then_js_def split: if_splits js.splits)

text \<open>
  C7 (as amended).  \<open>callLLM\<close> is given a reply with a non-empty content that was not cut
  at the token limit.  A content that does not parse is a failed call.  For a parsed reply
  other than \<open>null\<close> the decoder goes by priority: a \<open>done\<close> field that is \<open>true\<close> gives the
  done action with the reply's \<open>result\<close>, whatever else the reply holds; without a \<open>done\<close>
  field a \<open>plan\<close> that is an array gives the plan action; without \<open>done\<close> and with a falsy or
  absent \<open>plan\<close>, a truthy \<open>tool\<close> with an \<open>args\<close> field gives the tool action; a reply with
  no \<open>done\<close> field, no truthy \<open>plan\<close> and no truthy \<open>tool\<close> with \<open>args\<close> is a failed call.
  The done action and the tool action are returned only when the \<open>result\<close>, or the \<open>tool\<close>,
  converts to a string for the log line: where it does not, and for the reply \<open>null\<close>, the
  call fails with the message of the exception.  Every decoded action has exactly one of the
  fields \<open>done\<close>, \<open>plan\<close> and \<open>tool\<close>.
\<close>

theorem decode_by_priority:
  assumes "c \<noteq> []" and "finishReason \<noteq> Some ''length''"
  shows
  "(JSON_parse c = None \<longrightarrow> (\<exists>e. callLLM JSON_parse (Body (Some c) finishReason) = Failure e))
   \<and> (JSON_parse c = Some parsed \<and> parsed \<noteq> JNull \<longrightarrow>
        (get_prop (Some parsed) ''done'' = Some (JBool True)
           \<and> convertible_opt (get_prop (Some parsed) ''result'')
           \<longrightarrow> callLLM JSON_parse (Body (Some c) finishReason) = Success (done_action parsed))
      \<and> (get_prop (Some parsed) ''done'' \<noteq> None
           \<and> \<not> convertible_opt (get_prop (Some parsed) ''result'')
           \<longrightarrow> callLLM JSON_parse (Body (Some c) finishReason)
                 = Failure ''Cannot convert object to primitive value'')
      \<and> (get_prop (Some parsed) ''done'' = None \<and> get_prop (Some parsed) ''plan'' = Some (JArr xs)
           \<longrightarrow> callLLM JSON_parse (Body (Some c) finishReason)
                 = Success (JObj [(''plan'', JArr xs)]))
      \<and> (get_prop (Some parsed) ''done'' = None \<and> \<not> truthy_opt (get_prop (Some parsed) ''plan'')
           \<and> get_prop (Some parsed) ''tool'' = Some t \<and> truthy t \<and> convertible t
           \<and> get_prop (Some parsed) ''args'' = Some a
           \<longrightarrow> callLLM JSON_parse (Body (Some c) finishReason)
                 = Success (JObj [(''tool'', t), (''args'', a)]))
      \<and> (get_prop (Some parsed) ''done'' = None \<and> \<not> truthy_opt (get_prop (Some parsed) ''plan'')
           \<and> get_prop (Some parsed) ''tool'' = Some t \<and> truthy t \<and> \<not> convertible t
           \<and> get_prop (Some parsed) ''args'' \<noteq> None
           \<longrightarrow> callLLM JSON_parse (Body (Some c) finishReason)
                 = Failure ''Cannot convert object to primitive value'')
      \<and> (get_prop (Some parsed) ''done'' = None \<and> \<not> truthy_opt (get_prop (Some parsed) ''plan'')
           \<and> \<not> (truthy_opt (get_prop (Some parsed) ''tool'')
                  \<and> get_prop (Some parsed) ''args'' \<noteq> None)
           \<longrightarrow> callLLM JSON_parse (Body (Some c) finishReason)
                 = Failure (''Invalid response structure: '' @ c)))
   \<and> (JSON_parse c = Some JNull
        \<longrightarrow> callLLM JSON_parse (Body (Some c) finishReason)
              = Failure (''Cannot read properties of null (reading '' @ [CHR 0x27] @ ''done''
                         @ [CHR 0x27] @ '')''))
   \<and> (callLLM JSON_parse (Body (Some c) finishReason) = Success action \<longrightarrow>
        length (filter (\<lambda>k. get_prop (Some action) k \<noteq> None) [''done'', ''plan'', ''tool'']) = 1)"
proof -
  note body = callLLM_body [OF assms, of JSON_parse]
  have nopars: "\<exists>e. callLLM JSON_parse (Body (Some c) finishReason) = Failure e"
    if "JSON_parse c = None"
    unfolding body using that by (simp add: decode_content_def)
  have one: "length (filter (\<lambda>k. get_prop (Some action) k \<noteq> None) [''done'', ''plan'', ''tool'']) = 1"
    if "callLLM JSON_parse (Body (Some c) finishReason) = Success action"
  proof (cases "JSON_parse c")
    case None
    with that show ?thesis
      unfolding body by (simp add: decode_content_def split: if_splits)
  next
    case (Some p)
    with that have "decode_parsed c p = Return (Success action)"
      unfolding body by (simp add: decode_content_def split: js.splits)
    from decode_parsed_kinds [OF this] show ?thesis
      by (auto simp: done_action_keys)
  qed
  have null: "callLLM JSON_parse (Body (Some c) finishReason)
              = Failure (''Cannot read properties of null (reading '' @ [CHR 0x27] @ ''done''
                         @ [CHR 0x27] @ '')'')"
    if "JSON_parse c = Some JNull"
    unfolding body using that by (simp add: decode_content_def decode_parsed_def cannot_read_def)
  have parsed: "(get_prop (Some parsed) ''done'' = Some (JBool True)
           \<and> convertible_opt (get_prop (Some parsed) ''result'')
           \<longrightarrow> callLLM JSON_parse (Body (Some c) finishReason) = Success (done_action parsed))
      \<and> (get_prop (Some parsed) ''done'' \<noteq> None
           \<and> \<not> convertible_opt (get_prop (Some parsed) ''result'')
           \<longrightarrow> callLLM JSON_parse (Body (Some c) finishReason)
                 = Failure ''Cannot convert object to primitive value'')
      \<and> (get_prop (Some parsed) ''done'' = None \<and> get_prop (Some parsed) ''plan'' = Some (JArr xs)
           \<longrightarrow> callLLM JSON_parse (Body (Some c) finishReason)
                 = Success (JObj [(''plan'', JArr xs)]))
      \<and> (get_prop (Some parsed) ''done'' = None \<and> \<not> truthy_opt (get_prop (Some parsed) ''plan'')
           \<and> get_prop (Some parsed) ''tool'' = Some t \<and> truthy t \<and> convertible t
           \<and> get_prop (Some parsed) ''args'' = Some a
           \<longrightarrow> callLLM JSON_parse (Body (Some c) finishReason)
                 = Success (JObj [(''tool'', t), (''args'', a)]))
      \<and> (get_prop (Some parsed) ''done'' = None \<and> \<not> truthy_opt (get_prop (Some parsed) ''plan'')
           \<and> get_prop (Some parsed) ''tool'' = Some t \<and> truthy t \<and> \<not> convertible t
           \<and> get_prop (Some parsed) ''args'' \<noteq> None
           \<longrightarrow> callLLM JSON_parse (Body (Some c) finishReason)
                 = Failure ''Cannot convert object to primitive value'')
      \<and> (get_prop (Some parsed) ''done'' = None \<and> \<not> truthy_opt (get_prop (Some parsed) ''plan'')
           \<and> \<not> (truthy_opt (get_prop (Some parsed) ''tool'')
                  \<and> get_prop (Some parsed) ''args'' \<noteq> None)
           \<longrightarrow> callLLM JSON_parse (Body (Some c) finishReason)
                 = Failure (''Invalid response structure: '' @ c))"
    if "JSON_parse c = Some parsed" "parsed \<noteq> JNull"
    unfolding body using that
    by (cases "get_prop (Some parsed) ''result''")
       (auto simp: decode_content_def decode_parsed_def then_js_def js_to_string_def
          cannot_convert_def)
  from nopars one null parsed show ?thesis by blast
qed

theorem decode_by_priority_witness:
  "JSON_stringify done_and_tool \<noteq> [] \<and> Some ''stop'' \<noteq> Some ''length''
   \<and> parse_as done_and_tool (JSON_stringify done_and_tool) = Some done_and_tool
   \<and> done_and_tool \<noteq> JNull
   \<and> get_prop (Some done_and_tool) ''done'' = Some (JBool True)
   \<and> convertible_opt (get_prop (Some done_and_tool) ''result'')
   \<and> callLLM (parse_as done_and_tool) (Body (Some (JSON_stringify done_and_tool)) (Some ''stop''))
        = Success (JObj [(''done'', JBool True), (''result'', JStr ''Finished'')])
   \<and> length (filter (\<lambda>k. get_prop (Some (JObj [(''done'', JBool True),
                (''result'', JStr ''Finished'')])) k \<noteq> None) [''done'', ''plan'', ''tool'']) = 1
   \<and> JSON_stringify done_unconvertible \<noteq> []
   \<and> parse_as done_unconvertible (JSON_stringify done_unconvertible) = Some done_unconvertible
   \<and> done_unconvertible \<noteq> JNull
   \<and> get_prop (Some done_unconvertible) ''done'' \<noteq> None
   \<and> \<not> convertible_opt (get_prop (Some done_unconvertible) ''result'')
   \<and> callLLM (parse_as done_unconvertible)
         (Body (Some (JSON_stringify done_unconvertible)) (Some ''stop''))
        = Failure ''Cannot convert object to primitive value''"
proof -
  have c1: "JSON_stringify done_and_tool \<noteq> []"
    by (simp add: JSON_stringify_def done_and_tool_def)
  have c2: "JSON_stringify done_unconvertible \<noteq> []"
    by (simp add: JSON_stringify_def done_unconvertible_def)
  have f: "Some ''stop'' \<noteq> Some ''length''" by simp
  have d: "done_action done_and_tool
           = JObj [(''done'', JBool True), (''result'', JStr ''Finished'')]"
    by (simp add: done_action_def done_and_tool_def)
  have p1: "parse_as done_and_tool (JSON_stringify done_and_tool) = Some done_and_tool
            \<and> done_and_tool \<noteq> JNull"
    by (simp add: parse_as_def done_and_tool_def)
  have g1: "get_prop (Some done_and_tool) ''done'' = Some (JBool True)
            \<and> convertible_opt (get_prop (Some done_and_tool) ''result'')"
    by (simp add: done_and_tool_def)
  have p2: "parse_as done_unconvertible (JSON_stringify done_unconvertible)
              = Some done_unconvertible
            \<and> done_unconvertible \<noteq> JNull"
    by (simp add: parse_as_def done_unconvertible_def)
  have g2: "get_prop (Some done_unconvertible) ''done'' \<noteq> None
            \<and> \<not> convertible_opt (get_prop (Some done_unconvertible) ''result'')"
    by (simp add: done_unconvertible_def unconvertible_def)
  from decode_by_priority [OF c1 f, of "parse_as done_and_tool" done_and_tool
         "[]" "JStr ''run_build''" "JObj []"
         "JObj [(''done'', JBool True), (''result'', JStr ''Finished'')]"]
       decode_by_priority [OF c2 f, of "parse_as done_unconvertible" done_unconvertible
         "[]" "JStr ''run_build''" "JObj []" "JObj []"]
       c1 c2 p1 g1 p2 g2 d
  show ?thesis by simp
qed

text \<open>
  C7 (as stated) fails: a reply with the done shape and the tool shape together does not
  have exactly one of the three shapes, and the decoder returns success, as a done action.
\<close>

theorem decode_counterexample:
  "\<not> exactly_one_shape done_and_tool
   \<and> decode_parsed ''{}'' done_and_tool
       = Return (Success (JObj [(''done'', JBool True), (''result'', JStr ''Finished'')]))"
  by (simp add: exactly_one_shape_def shape_plan_def shape_tool_def shape_done_def
      done_and_tool_def decode_parsed_def done_action_def then_js_def js_to_string_def)

text \<open>
  A tool call whose \<open>tool\<close> is an object with a property \<open>toString\<close> is a failed call as
  well, and so is a plan whose \<open>length\<close> is such an object.
\<close>

lemma tool_unconvertible_fails:
  "callLLM (parse_as tool_unconvertible)
     (Body (Some (JSON_stringify tool_unconvertible)) (Some ''stop''))
   = Failure ''Cannot convert object to primitive value''"
  by (simp add: callLLM_def decode_body_def decode_content_def decode_parsed_def parse_as_def
      tool_unconvertible_def unconvertible_def JSON_stringify_def then_js_def js_to_string_def
      cannot_convert_def)

lemma plan_length_unconvertible_fails:
  assumes "c \<noteq> []" and "finishReason \<noteq> Some ''length''"
    and "JSON_parse c = Some (JObj [(''plan'', JObj [(''length'', unconvertible)])])"
  shows "callLLM JSON_parse (Body (Some c) finishReason)
           = Failure ''Cannot convert object to primitive value''"
  using assms
  by (simp add: callLLM_def decode_body_def decode_content_def decode_parsed_def
      unconvertible_def then_js_def js_to_string_def cannot_convert_def)
section \<open>Properties of the backup tools\<close>

lemma stash_ref_truthy: "str_truthy (Some stash_ref)"
  by (simp add: stash_ref_def)

lemma record_head_ref:
  "BACKUP_STASH_REF (snd (record_head env c s)) = BACKUP_STASH_REF s"
  by (simp add: record_head_def execGit_def Let_def split_beta)

lemma git_stash_backup_ref:
  assumes "BACKUP_STASH_REF s = None \<or> BACKUP_STASH_REF s = Some stash_ref"
  shows "BACKUP_STASH_REF (snd (git_stash_backup env s)) = None
       \<or> BACKUP_STASH_REF (snd (git_stash_backup env s)) = Some stash_ref"
  using assms
  by (simp add: git_stash_backup_def record_head_ref execGit_def Let_def split_beta)

lemma git_clear_backup_ref:
  assumes "BACKUP_STASH_REF s = None \<or> BACKUP_STASH_REF s = Some stash_ref"
  shows "BACKUP_STASH_REF (snd (git_clear_backup env s)) = None"
  using assms stash_ref_truthy
  by (auto simp: git_clear_backup_def execGit_def Let_def split_beta)

lemma git_clear_backup_issued:
  "issued (snd (git_clear_backup env s)) =
     (if str_truthy (BACKUP_STASH_REF s) then issued s @ [[''stash'', ''list'']] else issued s)"
  by (simp add: git_clear_backup_def execGit_def Let_def split_beta)

text \<open>
  C8.  Let \<open>git_stash_backup\<close> run from a state with no backup or one backup outstanding,
  and \<open>git_clear_backup\<close> run next.  Whatever git answers: \<open>git_clear_backup\<close> issues no
  command, or the single read-only command \<open>git stash list\<close> (so no checkout, reset, clean,
  and no \<open>stash drop\<close> or \<open>stash pop\<close>: the working tree and the stash are left as they
  are); it leaves \<open>BACKUP_STASH_REF\<close> cleared; and it reports success.
\<close>

theorem git_clear_backup_after_stash:
  assumes "BACKUP_STASH_REF s0 = None \<or> BACKUP_STASH_REF s0 = Some stash_ref"
  shows "BACKUP_STASH_REF (snd (git_clear_backup env (snd (git_stash_backup env s0)))) = None
       \<and> (issued (snd (git_clear_backup env (snd (git_stash_backup env s0))))
              = issued (snd (git_stash_backup env s0))
          \<or> issued (snd (git_clear_backup env (snd (git_stash_backup env s0))))
              = issued (snd (git_stash_backup env s0)) @ [[''stash'', ''list'']])
       \<and> fst (git_clear_backup env (snd (git_stash_backup env s0)))
           = \<lparr>success = True,
              data = Some (JObj [(''cleared'', JBool True),
                (''message'', JStr ''Backup cleared. Changes are now permanent.'')]),
              error = None\<rparr>"
proof -
  let ?s1 = "snd (git_stash_backup env s0)"
  from assms have "BACKUP_STASH_REF ?s1 = None \<or> BACKUP_STASH_REF ?s1 = Some stash_ref"
    by (rule git_stash_backup_ref)
  then have "BACKUP_STASH_REF (snd (git_clear_backup env ?s1)) = None"
    by (rule git_clear_backup_ref)
  moreover have "issued (snd (git_clear_backup env ?s1)) = issued ?s1
      \<or> issued (snd (git_clear_backup env ?s1)) = issued ?s1 @ [[''stash'', ''list'']]"
    by (simp add: git_clear_backup_issued)
  moreover have "fst (git_clear_backup env ?s1)
           = \<lparr>success = True,
              data = Some (JObj [(''cleared'', JBool True),
                (''message'', JStr ''Backup cleared. Changes are now permanent.'')]),
              error = None\<rparr>"
    by (simp add: git_clear_backup_def Let_def)
  ultimately show ?thesis by blast
qed

lemma git_stash_backup_dirty:
  "snd (git_stash_backup git_dirty git_state0)
     = \<lparr>BACKUP_STASH_REF = Some stash_ref,
        issued = [[''status'', ''--porcelain''],
                  [''stash'', ''push'', ''-m'', ''AGENT_BACKUP_PRE_MODIFICATION''],
                  [''rev-parse'', ''HEAD'']]\<rparr>"
  by (simp add: git_stash_backup_def record_head_def git_dirty_def git_state0_def execGit_def
      Let_def trim_def isWhiteSpace_def)

theorem git_clear_backup_after_stash_witness:
  "(BACKUP_STASH_REF git_state0 = None \<or> BACKUP_STASH_REF git_state0 = Some stash_ref)
   \<and> BACKUP_STASH_REF (snd (git_stash_backup git_dirty git_state0)) = Some stash_ref
   \<and> BACKUP_STASH_REF
        (snd (git_clear_backup git_dirty (snd (git_stash_backup git_dirty git_state0)))) = None
   \<and> issued (snd (git_clear_backup git_dirty (snd (git_stash_backup git_dirty git_state0))))
       = [[''status'', ''--porcelain''],
          [''stash'', ''push'', ''-m'', ''AGENT_BACKUP_PRE_MODIFICATION''],
          [''rev-parse'', ''HEAD''],
          [''stash'', ''list'']]"
proof -
  have h: "BACKUP_STASH_REF git_state0 = None \<or> BACKUP_STASH_REF git_state0 = Some stash_ref"
    by (simp add: git_state0_def)
  have i: "issued (snd (git_clear_backup git_dirty (snd (git_stash_backup git_dirty git_state0))))
       = [[''status'', ''--porcelain''],
          [''stash'', ''push'', ''-m'', ''AGENT_BACKUP_PRE_MODIFICATION''],
          [''rev-parse'', ''HEAD''],
          [''stash'', ''list'']]"
    by (simp add: git_clear_backup_issued git_stash_backup_dirty stash_ref_def)
  from git_clear_backup_after_stash [OF h, of git_dirty] h i show ?thesis
    by (simp add: git_stash_backup_dirty stash_ref_def)
qed

text \<open>
  The condition on the starting state holds throughout a run: \<open>initialize\<close> clears the
  reference, and every tool of the module leaves it cleared or equal to the stash name.
\<close>

lemma backup_ref_invariant:
  "BACKUP_STASH_REF (git_initialize s) = None"
  "BACKUP_STASH_REF (snd (git_push env tok ts br s)) = BACKUP_STASH_REF s"
  "BACKUP_STASH_REF (snd (git_restore_backup env s)) = None
   \<or> BACKUP_STASH_REF (snd (git_restore_backup env s)) = BACKUP_STASH_REF s"
  "BACKUP_STASH_REF (snd (git_clear_backup env s)) = None
   \<or> BACKUP_STASH_REF (snd (git_clear_backup env s)) = BACKUP_STASH_REF s"
proof -
  show "BACKUP_STASH_REF (git_initialize s) = None"
    by (simp add: git_initialize_def)
  have c: "BACKUP_STASH_REF (configure_remote env tok s') = BACKUP_STASH_REF s'" for s'
    by (simp add: configure_remote_def execGit_def Let_def split_beta)
  show "BACKUP_STASH_REF (snd (git_push env tok ts br s)) = BACKUP_STASH_REF s"
    by (simp add: git_push_def execGit_def Let_def split_beta c)
  show "BACKUP_STASH_REF (snd (git_restore_backup env s)) = None
   \<or> BACKUP_STASH_REF (snd (git_restore_backup env s)) = BACKUP_STASH_REF s"
    by (simp add: git_restore_backup_def execGit_def Let_def split_beta)
  show "BACKUP_STASH_REF (snd (git_clear_backup env s)) = None
   \<or> BACKUP_STASH_REF (snd (git_clear_backup env s)) = BACKUP_STASH_REF s"
    by (simp add: git_clear_backup_def execGit_def Let_def split_beta)
qed

section \<open>Properties of the git record of the state\<close>

lemma js_or_keeps: "old \<noteq> None \<Longrightarrow> js_or new old \<noteq> None"
  by (cases new) (auto simp: js_or_def)

lemma git_keeps_refl: "git_keeps st st"
  by (simp add: git_keeps_def)

lemma git_keeps_trans: "git_keeps a b \<Longrightarrow> git_keeps b c \<Longrightarrow> git_keeps a c"
  unfolding git_keeps_def by blast

lemma git_keeps_same: "git st' = git st \<Longrightarrow> git_keeps st st'"
  by (simp add: git_keeps_def)

lemma setGitStatus_keeps: "git_keeps st (setGitStatus True p h b u st)"
  by (simp add: git_keeps_def setGitStatus_def js_or_keeps)

lemma record_result_keeps: "git_keeps st (record_result toolName args result st)"
proof -
  define st1 where "st1 = (if toolName = JStr ''run_build''
                 then setBuildStatus (success result)
                        (json_or_empty_array (get_prop (data result) ''errors''))
                        (get_prop (data result) ''stdout'') st
                 else st)"
  define st2 where "st2 = (if toolName = JStr ''start_dev_server'' \<and> success result
                 then setDevServerStatus True (get_prop (data result) ''port'')
                        (get_prop (data result) ''pid'') st1
                 else st1)"
  define st3 where "st3 = (if toolName = JStr ''stop_dev_server''
                 then setDevServerStatus False None None st2
                 else st2)"
  define st4 where "st4 = (if toolName = JStr ''check_dev_server''
                 then setVerificationStatus (success result)
                        [(json_or_slash (get_prop args ''path''), success result)] st3
                 else st3)"
  define st5 where "st5 = (if toolName = JStr ''git_commit'' \<and> success result
                 then setGitStatus True False (get_prop (data result) ''commit_hash'') None None st4
                 else st4)"
  define st6 where "st6 = (if toolName = JStr ''git_push'' \<and> success result
                 then setGitStatus True True (commit_hash (git st5))
                        (get_prop (data result) ''branch'') None st5
                 else st5)"
  define st7 where "st7 = (if toolName = JStr ''git_create_pr'' \<and> success result
                 then setGitStatus True True (commit_hash (git st6))
                        (get_prop (data result) ''branch'') (get_prop (data result) ''pr_url'') st6
                 else st6)"
  have r: "record_result toolName args result st = st7"
    unfolding record_result_def Let_def st7_def st6_def st5_def st4_def st3_def st2_def st1_def
    by (rule refl)
  have k1: "git_keeps st st1"
    by (simp add: st1_def git_keeps_refl git_keeps_same setBuildStatus_def)
  have k2: "git_keeps st1 st2"
    by (simp add: st2_def git_keeps_refl git_keeps_same setDevServerStatus_def)
  have k3: "git_keeps st2 st3"
    by (simp add: st3_def git_keeps_refl git_keeps_same setDevServerStatus_def)
  have k4: "git_keeps st3 st4"
    by (simp add: st4_def git_keeps_refl git_keeps_same setVerificationStatus_def)
  have k5: "git_keeps st4 st5"
    by (simp add: st5_def git_keeps_refl setGitStatus_keeps)
  have k6: "git_keeps st5 st6"
    by (simp add: st6_def git_keeps_refl setGitStatus_keeps)
  have k7: "git_keeps st6 st7"
    by (simp add: st7_def git_keeps_refl setGitStatus_keeps)
  from k1 k2 k3 k4 k5 k6 k7 have "git_keeps st st7"
    by (blast intro: git_keeps_trans)
  with r show ?thesis by simp
qed

lemma record_results_keeps: "git_keeps st (record_results rs st)"
proof (induction rs arbitrary: st)
  case Nil
  then show ?case by (simp add: git_keeps_refl)
next
  case (Cons r rs)
  obtain toolName args result where r: "r = (toolName, args, result)"
    by (cases r) auto
  from Cons.IH [of "record_result toolName args result st"]
       record_result_keeps [of st toolName args result]
  show ?case unfolding r by (simp only: record_results.simps) (rule git_keeps_trans)
qed

lemma git_commit_resets_pushed:
  "success result \<Longrightarrow>
   \<not> pushed (git (record_result (JStr ''git_commit'') args result st))
   \<and> committed (git (record_result (JStr ''git_commit'') args result st))"
  by (simp add: record_result_def Let_def setGitStatus_def)

text \<open>
  C9 (as amended).  Over every sequence of tool results that the dispatcher records: a
  \<open>committed\<close> flag that is true stays true; a \<open>branch\<close> and a \<open>pr_url\<close> that are set are
  never replaced by \<open>null\<close>; \<open>pushed\<close> never holds without \<open>committed\<close>.  A successful
  \<open>git_commit\<close> sets \<open>pushed\<close> to false, the new commit being unpushed.
\<close>

theorem git_record_progress:
  "(committed (git st) \<longrightarrow> committed (git (record_results rs st)))
   \<and> (branch (git st) \<noteq> None \<longrightarrow> branch (git (record_results rs st)) \<noteq> None)
   \<and> (pr_url (git st) \<noteq> None \<longrightarrow> pr_url (git (record_results rs st)) \<noteq> None)
   \<and> ((pushed (git st) \<longrightarrow> committed (git st))
        \<longrightarrow> (pushed (git (record_results rs st)) \<longrightarrow> committed (git (record_results rs st))))
   \<and> (success result
        \<longrightarrow> \<not> pushed (git (record_result (JStr ''git_commit'') args result st))
            \<and> committed (git (record_result (JStr ''git_commit'') args result st)))"
  using record_results_keeps [of st rs] git_commit_resets_pushed [of result args st]
  unfolding git_keeps_def by blast

lemma after_push_then_commit:
  "git (record_results [(JStr ''git_commit'', None, commit_ok),
                        (JStr ''git_push'', None, push_ok),
                        (JStr ''git_commit'', None, commit_ok)] initialState)
     = \<lparr>committed = True, pushed = False, commit_hash = Some (JStr ''abc1234''),
        branch = Some (JStr ''agent/changes-1700000000000''), pr_url = None\<rparr>"
  by (simp add: record_result_def Let_def setGitStatus_def initialState_def push_ok_def
      commit_ok_def js_or_def nullish_def)

lemma after_commit_then_push:
  "git (record_results [(JStr ''git_commit'', None, commit_ok),
                        (JStr ''git_push'', None, push_ok)] initialState)
     = \<lparr>committed = True, pushed = True, commit_hash = Some (JStr ''abc1234''),
        branch = Some (JStr ''agent/changes-1700000000000''), pr_url = None\<rparr>"
  by (simp add: record_result_def Let_def setGitStatus_def initialState_def push_ok_def
      commit_ok_def js_or_def nullish_def)

theorem git_record_progress_witness:
  "committed (git (record_results [(JStr ''git_commit'', None, commit_ok),
                                   (JStr ''git_push'', None, push_ok)] initialState))
   \<and> branch (git (record_results [(JStr ''git_commit'', None, commit_ok),
                                   (JStr ''git_push'', None, push_ok)] initialState)) \<noteq> None
   \<and> success commit_ok
   \<and> committed (git (record_results [(JStr ''git_commit'', None, commit_ok)]
        (record_results [(JStr ''git_commit'', None, commit_ok),
                         (JStr ''git_push'', None, push_ok)] initialState)))
   \<and> branch (git (record_results [(JStr ''git_commit'', None, commit_ok)]
        (record_results [(JStr ''git_commit'', None, commit_ok),
                         (JStr ''git_push'', None, push_ok)] initialState))) \<noteq> None
   \<and> \<not> pushed (git (record_result (JStr ''git_commit'') None commit_ok
        (record_results [(JStr ''git_commit'', None, commit_ok),
                         (JStr ''git_push'', None, push_ok)] initialState)))"
proof -
  let ?st = "record_results [(JStr ''git_commit'', None, commit_ok),
                             (JStr ''git_push'', None, push_ok)] initialState"
  have c: "committed (git ?st)" and b: "branch (git ?st) \<noteq> None"
    unfolding after_commit_then_push by simp_all
  have s: "success commit_ok" by (simp add: commit_ok_def)
  from git_record_progress [of ?st "[(JStr ''git_commit'', None, commit_ok)]" commit_ok None]
       c b s
  show ?thesis by blast
qed

text \<open>
  C9 (as stated) fails: after a commit and a push the state has \<open>pushed\<close> true, and the next
  successful commit sets it back to false.
\<close>

theorem git_record_counterexample:
  "pushed (git (record_results [(JStr ''git_commit'', None, commit_ok),
                                (JStr ''git_push'', None, push_ok)] initialState))
   \<and> \<not> pushed (git (record_results [(JStr ''git_commit'', None, commit_ok),
                                    (JStr ''git_push'', None, push_ok),
                                    (JStr ''git_commit'', None, commit_ok)] initialState))"
  by (simp add: record_result_def Let_def setGitStatus_def initialState_def push_ok_def
      commit_ok_def js_or_def nullish_def)

text \<open>The dispatcher itself changes the git record only through these updates.\<close>

lemma executeToolWithArgs_keeps:
  assumes "executeToolWithArgs world step toolName args st = (outcome, st')"
  shows "git_keeps st st'"
proof (cases "js_to_string toolName")
  case (Throw e)
  with assms have "st' = st" by (simp add: executeToolWithArgs_def)
  then show ?thesis by (simp add: git_keeps_refl)
next
  case (Return key)
  note key = this
  show ?thesis
  proof (cases "allTools_truthy key")
    case False
    with key assms have "st' = st" by (simp add: executeToolWithArgs_def)
    then show ?thesis by (simp add: git_keeps_refl)
  next
    case True
    let ?st1 = "if toolName = JStr ''write_file'' \<and> truthy_opt (get_prop args ''path'')
                then addChangedFile (the (get_prop args ''path'')) st else st"
    have "git ?st1 = git st"
      by (simp add: addChangedFile_def)
    then have k: "git_keeps st ?st1"
      by (rule git_keeps_same)
    show ?thesis
    proof (cases "switch_tool world step toolName key args")
      case (Throw e)
      with key True assms have "st' = ?st1"
        by (simp add: executeToolWithArgs_def Let_def)
      with k show ?thesis by simp
    next
      case (Return result)
      with key True assms have "st' = record_result toolName args result ?st1"
        by (simp add: executeToolWithArgs_def Let_def)
      with k record_result_keeps [of ?st1 toolName args result] show ?thesis
        by (blast intro: git_keeps_trans)
    qed
  qed
qed
section \<open>Properties of \<open>verify_url\<close>\<close>

lemma verify_url_string_url:
  assumes "map_of kvs ''url'' = Some (JStr u)" and "u \<noteq> []"
  shows "verify_url http_get (Some (JObj kvs))
         = (case http_get u (timeout_of (Some (JObj kvs))) of
              Response statusCode body \<Rightarrow>
                (case (if truthy_opt (map_of kvs ''expectedContent'')
                       then then_js (js_to_string_opt (map_of kvs ''expectedContent''))
                              (\<lambda>searchString. Return (str_includes body searchString))
                       else Return True) of
                   Throw e \<Rightarrow> caught e
                 | Return contentMatch \<Rightarrow>
                     Return
                      \<lparr>success = True,
                       data = Some (JObj
                         [(''url'', JStr u),
                          (''statusCode'', JNum statusCode),
                          (''accessible'', JBool (statusCode \<ge> 200 \<and> statusCode < 400)),
                          (''contentMatch'', JBool contentMatch),
                          (''bodyLength'', JNum (int (length body))),
                          (''hasExpectedContent'',
                             if truthy_opt (map_of kvs ''expectedContent'') then JBool contentMatch
                             else JStr ''not checked'')]),
                       error = None\<rparr>)
            | RequestError e \<Rightarrow> Return \<lparr>success = False, data = None, error = Some e\<rparr>
            | RequestTimeout \<Rightarrow>
                Return \<lparr>success = False, data = None, error = Some ''Request timeout''\<rparr>)"
  using assms by (simp add: verify_url_def Let_def then_js_def js_to_string_def)

lemma verify_url_throws:
  "verify_url http_get (Some (JObj kvs)) = Throw e
   \<longleftrightarrow> truthy_opt (map_of kvs ''url'') \<and> \<not> convertible_opt (map_of kvs ''url'')
       \<and> e = cannot_convert"
proof (cases "truthy_opt (map_of kvs ''url'')")
  case False
  then show ?thesis by (simp add: verify_url_def Let_def)
next
  case True
  then obtain v where v: "map_of kvs ''url'' = Some v" and tv: "truthy v"
    by (cases "map_of kvs ''url''") auto
  show ?thesis
  proof (cases "convertible v")
    case False
    with v tv show ?thesis
      by (auto simp: verify_url_def Let_def then_js_def js_to_string_def)
  next
    case True
    note conv = this
    show ?thesis
    proof (cases "\<exists>u. v = JStr u")
      case True
      then obtain u where u: "v = JStr u" by blast
      with tv have "u \<noteq> []" by simp
      from verify_url_string_url [of kvs u http_get] v u this show ?thesis
        by (simp add: caught_def then_js_def split: http_outcome.splits js.splits)
    next
      case False
      with v tv conv show ?thesis
        by (cases v) (simp_all add: verify_url_def Let_def then_js_def js_to_string_def caught_def)
    qed
  qed
qed

text \<open>
  C10 (as amended).  For an \<open>args\<close> object: when \<open>url\<close> is a non-empty string, the request
  receives a response, and the expected content, if one is given, converts to a string, the
  result has \<open>success: true\<close> whatever the status code, and \<open>data.accessible\<close> tells whether
  the code is in [200, 400).  A result has \<open>success: false\<close> only when \<open>url\<close> is missing,
  empty or not a string (no request is made), when the request ends with an error or the
  timeout, or when a response has arrived and the expected content that is given does not
  convert to a string.  The call returns no result, but throws, exactly when \<open>url\<close> is
  truthy and does not convert to a string for the log line.
\<close>

theorem verify_url_success:
  "(map_of kvs ''url'' = Some (JStr u) \<and> u \<noteq> []
      \<and> http_get u (timeout_of (Some (JObj kvs))) = Response statusCode body
      \<and> (truthy_opt (map_of kvs ''expectedContent'')
            \<longrightarrow> convertible_opt (map_of kvs ''expectedContent''))
      \<longrightarrow> (\<exists>r. verify_url http_get (Some (JObj kvs)) = Return r
               \<and> success r
               \<and> get_prop (data r) ''statusCode'' = Some (JNum statusCode)
               \<and> get_prop (data r) ''accessible''
                   = Some (JBool (200 \<le> statusCode \<and> statusCode < 400))))
   \<and> (verify_url http_get (Some (JObj kvs)) = Return r \<and> \<not> success r
      \<longrightarrow> \<not> truthy_opt (map_of kvs ''url'')
          \<or> (\<forall>u. map_of kvs ''url'' \<noteq> Some (JStr u))
          \<or> (\<exists>u e. map_of kvs ''url'' = Some (JStr u)
                 \<and> (http_get u (timeout_of (Some (JObj kvs))) = RequestError e
                     \<or> http_get u (timeout_of (Some (JObj kvs))) = RequestTimeout))
          \<or> (\<exists>u statusCode body. map_of kvs ''url'' = Some (JStr u)
                 \<and> http_get u (timeout_of (Some (JObj kvs))) = Response statusCode body
                 \<and> truthy_opt (map_of kvs ''expectedContent'')
                 \<and> \<not> convertible_opt (map_of kvs ''expectedContent'')))
   \<and> ((\<exists>e. verify_url http_get (Some (JObj kvs)) = Throw e)
        \<longleftrightarrow> truthy_opt (map_of kvs ''url'') \<and> \<not> convertible_opt (map_of kvs ''url''))"
proof -
  have a: "\<exists>r. verify_url http_get (Some (JObj kvs)) = Return r
               \<and> success r
               \<and> get_prop (data r) ''statusCode'' = Some (JNum statusCode)
               \<and> get_prop (data r) ''accessible''
                   = Some (JBool (200 \<le> statusCode \<and> statusCode < 400))"
    if "map_of kvs ''url'' = Some (JStr u)" "u \<noteq> []"
      "http_get u (timeout_of (Some (JObj kvs))) = Response statusCode body"
      "truthy_opt (map_of kvs ''expectedContent'')
         \<longrightarrow> convertible_opt (map_of kvs ''expectedContent'')"
    for u statusCode body
  proof (cases "map_of kvs ''expectedContent''")
    case None
    with that show ?thesis
      unfolding verify_url_string_url [OF that(1,2)] by simp
  next
    case (Some x)
    with that show ?thesis
      unfolding verify_url_string_url [OF that(1,2)]
      by (simp add: then_js_def js_to_string_def)
  qed
  have b: "\<not> truthy_opt (map_of kvs ''url'')
          \<or> (\<forall>u. map_of kvs ''url'' \<noteq> Some (JStr u))
          \<or> (\<exists>u e. map_of kvs ''url'' = Some (JStr u)
                 \<and> (http_get u (timeout_of (Some (JObj kvs))) = RequestError e
                     \<or> http_get u (timeout_of (Some (JObj kvs))) = RequestTimeout))
          \<or> (\<exists>u statusCode body. map_of kvs ''url'' = Some (JStr u)
                 \<and> http_get u (timeout_of (Some (JObj kvs))) = Response statusCode body
                 \<and> truthy_opt (map_of kvs ''expectedContent'')
                 \<and> \<not> convertible_opt (map_of kvs ''expectedContent''))"
    if r: "verify_url http_get (Some (JObj kvs)) = Return r" "\<not> success r" for r
  proof (cases "\<exists>u. map_of kvs ''url'' = Some (JStr u) \<and> u \<noteq> []")
    case False
    then have "\<not> truthy_opt (map_of kvs ''url'') \<or> (\<forall>u. map_of kvs ''url'' \<noteq> Some (JStr u))"
      by (cases "map_of kvs ''url''") auto
    then show ?thesis by blast
  next
    case True
    then obtain u where u: "map_of kvs ''url'' = Some (JStr u)" "u \<noteq> []" by blast
    show ?thesis
    proof (cases "http_get u (timeout_of (Some (JObj kvs)))")
      case (Response statusCode body)
      have "truthy_opt (map_of kvs ''expectedContent'')
            \<and> \<not> convertible_opt (map_of kvs ''expectedContent'')"
      proof (rule ccontr)
        assume "\<not> ?thesis"
        then have "truthy_opt (map_of kvs ''expectedContent'')
                   \<longrightarrow> convertible_opt (map_of kvs ''expectedContent'')" by blast
        from a [OF u Response this] r show False by auto
      qed
      with u Response show ?thesis by blast
    next
      case (RequestError e)
      with u show ?thesis by blast
    next
      case RequestTimeout
      with u show ?thesis by blast
    qed
  qed
  from a b verify_url_throws [of http_get kvs] show ?thesis by blast
qed

theorem verify_url_success_witness:
  "verify_url http_not_found (Some (JObj [(''url'', JStr ''http://localhost:3000/x'')]))
     = Return \<lparr>success = True,
         data = Some (JObj
           [(''url'', JStr ''http://localhost:3000/x''),
            (''statusCode'', JNum 404),
            (''accessible'', JBool False),
            (''contentMatch'', JBool True),
            (''bodyLength'', JNum 9),
            (''hasExpectedContent'', JStr ''not checked'')]),
         error = None\<rparr>
   \<and> map_of [(''url'', JStr ''http://localhost:3000/x'')] ''url''
        = Some (JStr ''http://localhost:3000/x'')
   \<and> ''http://localhost:3000/x'' \<noteq> []
   \<and> http_not_found ''http://localhost:3000/x''
        (timeout_of (Some (JObj [(''url'', JStr ''http://localhost:3000/x'')])))
        = Response 404 ''Not Found''
   \<and> \<not> truthy_opt (map_of [(''url'', JStr ''http://localhost:3000/x'')] ''expectedContent'')
   \<and> verify_url http_not_found (Some (JObj [])) 
        = Return \<lparr>success = False, data = None, error = Some ''url is required''\<rparr>
   \<and> \<not> success \<lparr>success = False, data = None, error = Some ''url is required''\<rparr>
   \<and> \<not> truthy_opt (map_of [] ''url'')
   \<and> verify_url http_not_found
        (Some (JObj [(''url'', JStr ''http://localhost:3000/x''),
                     (''expectedContent'', unconvertible)]))
        = Return \<lparr>success = False, data = None,
                  error = Some ''Cannot convert object to primitive value''\<rparr>
   \<and> truthy_opt (map_of [(''url'', unconvertible)] ''url'')
   \<and> \<not> convertible_opt (map_of [(''url'', unconvertible)] ''url'')
   \<and> verify_url http_not_found (Some (JObj [(''url'', unconvertible)])) = Throw cannot_convert"
proof -
  have e: "verify_url http_not_found (Some (JObj [(''url'', JStr ''http://localhost:3000/x'')]))
     = Return \<lparr>success = True,
         data = Some (JObj
           [(''url'', JStr ''http://localhost:3000/x''),
            (''statusCode'', JNum 404),
            (''accessible'', JBool False),
            (''contentMatch'', JBool True),
            (''bodyLength'', JNum 9),
            (''hasExpectedContent'', JStr ''not checked'')]),
         error = None\<rparr>"
    by (simp add: verify_url_def http_not_found_def timeout_of_def Let_def then_js_def
        js_to_string_def)
  have n: "verify_url http_not_found (Some (JObj []))
        = Return \<lparr>success = False, data = None, error = Some ''url is required''\<rparr>"
    by (simp add: verify_url_def Let_def)
  have x: "verify_url http_not_found
        (Some (JObj [(''url'', JStr ''http://localhost:3000/x''),
                     (''expectedContent'', unconvertible)]))
        = Return \<lparr>success = False, data = None,
                  error = Some ''Cannot convert object to primitive value''\<rparr>"
    by (simp add: verify_url_def http_not_found_def timeout_of_def Let_def then_js_def
        js_to_string_def unconvertible_def caught_def cannot_convert_def)
  have t: "truthy_opt (map_of [(''url'', unconvertible)] ''url'')
           \<and> \<not> convertible_opt (map_of [(''url'', unconvertible)] ''url'')"
    by (simp add: unconvertible_def)
  have "\<exists>e. verify_url http_not_found (Some (JObj [(''url'', unconvertible)])) = Throw e"
    using verify_url_success [of "[(''url'', unconvertible)]" "[]" http_not_found 0 "[]"
            "\<lparr>success = False, data = None, error = None\<rparr>"] t
    by simp
  then have th: "verify_url http_not_found (Some (JObj [(''url'', unconvertible)]))
                 = Throw cannot_convert"
    by (simp add: verify_url_def Let_def then_js_def js_to_string_def unconvertible_def)
  from verify_url_success [of "[(''url'', JStr ''http://localhost:3000/x'')]"
         "''http://localhost:3000/x''" http_not_found 404 "''Not Found''"
         "\<lparr>success = False, data = None, error = Some ''url is required''\<rparr>"]
       e n x t th
  show ?thesis by (simp add: http_not_found_def)
qed

text \<open>
  C10 (as stated) fails: with no \<open>url\<close> the result is \<open>success: false\<close> although no request
  was made, so none failed or timed out; the server here would have answered 200.
\<close>

theorem verify_url_counterexample:
  "verify_url http_always_ok (Some (JObj [(''expectedContent'', JStr ''ok'')]))
     = Return \<lparr>success = False, data = None, error = Some ''url is required''\<rparr>"
  by (simp add: verify_url_def Let_def)
end
